theory Spec2Isabelle
  imports Main "HOL-Library.Word"
begin

section \<open>Python strings\<close>

text \<open>
  A Python \<open>str\<close> is modelled as a \<open>string\<close> whose characters stand for the code
  points U+0000 to U+00FF. The separator is the character \<open>/\<close>.
\<close>

type_synonym byte = "8 word"

definition startswith :: "string \<Rightarrow> string \<Rightarrow> bool" where
  "startswith s p = (take (length p) s = p)"

definition endswith :: "string \<Rightarrow> string \<Rightarrow> bool" where
  "endswith s p = (length p \<le> length s \<and> drop (length s - length p) s = p)"


text \<open>\<open>s.split(sep)\<close> for a one-character separator.\<close>

fun split_on :: "char \<Rightarrow> string \<Rightarrow> string list" where
  "split_on sep [] = [[]]"
| "split_on sep (c # s) =
     (if c = sep then [] # split_on sep s
      else (case split_on sep s of
              [] \<Rightarrow> [[c]]
            | piece # pieces \<Rightarrow> (c # piece) # pieces))"

text \<open>\<open>sep.join(pieces)\<close>.\<close>

fun join_with :: "string \<Rightarrow> string list \<Rightarrow> string" where
  "join_with sep [] = []"
| "join_with sep [x] = x"
| "join_with sep (x # y # ys) = x @ sep @ join_with sep (y # ys)"

text \<open>
  \<open>repr(s)\<close> of a \<open>str\<close> (Python 3): the string is quoted with \<open>'\<close>, or with
  \<open>"\<close> when it holds a \<open>'\<close> and no \<open>"\<close>; the quote and the backslash are escaped
  with a backslash, tab, line feed and carriage return become \<open>\t\<close>, \<open>\n\<close>, \<open>\r\<close>,
  and every other non-printable code point below U+0100 becomes \<open>\xhh\<close>.
\<close>

definition hex_digit :: "nat \<Rightarrow> char" where
  "hex_digit n = ''0123456789abcdef'' ! (n mod 16)"

definition hex_escape :: "char \<Rightarrow> string" where
  "hex_escape c =
     [CHR 0x5C, CHR ''x'', hex_digit ((of_char c :: nat) div 16), hex_digit ((of_char c :: nat) mod 16)]"

definition isprintable :: "char \<Rightarrow> bool" where
  "isprintable c =
     (let n = (of_char c :: nat)
      in (32 \<le> n \<and> n < 127) \<or> (161 \<le> n \<and> n \<noteq> 173))"

definition repr_char :: "char \<Rightarrow> char \<Rightarrow> string" where
  "repr_char quote c =
     (if c = quote \<or> c = CHR 0x5C then [CHR 0x5C, c]
      else if c = CHR 0x09 then [CHR 0x5C, CHR ''t'']
      else if c = CHR 0x0A then [CHR 0x5C, CHR ''n'']
      else if c = CHR 0x0D then [CHR 0x5C, CHR ''r'']
      else if (of_char c :: nat) < 32 \<or> (of_char c :: nat) = 127 then hex_escape c
      else if (of_char c :: nat) < 127 then [c]
      else if \<not> isprintable c then hex_escape c
      else [c])"

definition repr_quote :: "string \<Rightarrow> char" where
  "repr_quote s = (if CHR 0x27 \<in> set s \<and> CHR 0x22 \<notin> set s then CHR 0x22 else CHR 0x27)"

definition py_repr :: "string \<Rightarrow> string" where
  "py_repr s = repr_quote s # concat (map (repr_char (repr_quote s)) s) @ [repr_quote s]"

section \<open>Exceptions\<close>

text \<open>
  \<open>ClientError\<close> is the backend client's exception: an error response (code and message)
  and the name of the operation that failed. \<open>S3Error\<close> is the adapter's own exception,
  which carries a message only.
\<close>

datatype error_response = ErrorResponse (Code: string) (Message: string)

datatype exc =
    ValueError string
  | ClientError error_response string
  | S3Error string

text \<open>\<open>force_text(ex)\<close> is the text of the exception.\<close>

fun force_text :: "exc \<Rightarrow> string" where
  "force_text (ClientError r operation) =
     ''An error occurred ('' @ Code r @ '') when calling the '' @ operation
       @ '' operation: '' @ Message r"
| "force_text (ValueError m) = m"
| "force_text (S3Error m) = m"

section \<open>Timestamps\<close>

text \<open>
  An aware datetime is an instant (seconds since the epoch, UTC) together with the UTC
  offset of its time zone; a naive datetime is a wall-clock reading. A time zone gives
  its UTC offset at every instant.
\<close>

datatype datetime = Aware int int | Naive int

type_synonym tzinfo = "int \<Rightarrow> int"

definition utc :: tzinfo where
  "utc = (\<lambda>_. 0)"

text \<open>\<open>make_naive(value, timezone)\<close>: \<open>value.astimezone(timezone).replace(tzinfo=None)\<close>.\<close>

fun make_naive :: "datetime \<Rightarrow> tzinfo \<Rightarrow> exc + datetime" where
  "make_naive (Aware t off) tz = Inr (Naive (t + tz t))"
| "make_naive (Naive t) tz =
     Inl (ValueError ''make_naive() cannot be applied to a naive datetime'')"

section \<open>Configuration and library functions\<close>

text \<open>
  The settings the adapter reads (\<open>AWS_S3_BUCKET_NAME\<close>, \<open>USE_TZ\<close>, the current time
  zone that \<open>make_naive\<close> uses when none is given) and the library functions whose
  results it only passes on: \<open>mimetypes.guess_type\<close>, \<open>force_bytes\<close>, \<open>os.getcwd\<close>.
\<close>

record config =
  AWS_S3_BUCKET_NAME :: string
  USE_TZ :: bool
  current_timezone :: tzinfo
  guess_type :: "string \<Rightarrow> string option"
  force_bytes :: "string \<Rightarrow> byte list"
  getcwd :: string

section \<open>The object store and the temporary files\<close>

datatype request =
    GetObject string string
  | PutObject string string "byte list" string
  | HeadObject string string
  | DeleteObject string string
  | ListObjects string "string option" "string option"

record s3_object =
  obj_body :: "byte list"
  obj_content_type :: string
  obj_last_modified :: int

record head_response =
  ContentLength :: nat
  LastModified :: datetime
  ContentType :: string

record page =
  Contents :: "string list option"
  CommonPrefixes :: "string list option"

record temp_file =
  tf_data :: "byte list"
  tf_pos :: nat
  tf_closed :: bool

text \<open>
  The state outside the adapter: the objects of the configured bucket in listing order,
  the failures the backend answers with (per request), the log of the requests sent, the
  backend's clock, and the spooled temporary files created so far (a handle is an index).
\<close>

record world =
  objects :: "(string \<times> s3_object) list"
  fault :: "request \<Rightarrow> error_response option"
  calls :: "request list"
  now :: int
  temp_files :: "temp_file list"

definition send :: "request \<Rightarrow> world \<Rightarrow> world" where
  "send r w = w\<lparr>calls := calls w @ [r]\<rparr>"

fun store_object :: "string \<Rightarrow> s3_object \<Rightarrow> (string \<times> s3_object) list \<Rightarrow> (string \<times> s3_object) list" where
  "store_object k v [] = [(k, v)]"
| "store_object k v ((k', v') # rest) =
     (if k' = k then (k, v) # rest else (k', v') # store_object k v rest)"

definition get_object :: "string \<Rightarrow> string \<Rightarrow> world \<Rightarrow> (exc + s3_object) \<times> world" where
  "get_object bucket key w =
     (case fault w (GetObject bucket key) of
        Some e \<Rightarrow> (Inl (ClientError e ''GetObject''), send (GetObject bucket key) w)
      | None \<Rightarrow>
          (case map_of (objects w) key of
             None \<Rightarrow>
               (Inl (ClientError (ErrorResponse ''NoSuchKey'' ''The specified key does not exist.'')
                       ''GetObject''),
                send (GetObject bucket key) w)
           | Some obj \<Rightarrow> (Inr obj, send (GetObject bucket key) w)))"

definition head_object :: "string \<Rightarrow> string \<Rightarrow> world \<Rightarrow> (exc + head_response) \<times> world" where
  "head_object bucket key w =
     (case fault w (HeadObject bucket key) of
        Some e \<Rightarrow> (Inl (ClientError e ''HeadObject''), send (HeadObject bucket key) w)
      | None \<Rightarrow>
          (case map_of (objects w) key of
             None \<Rightarrow>
               (Inl (ClientError (ErrorResponse ''404'' ''Not Found'') ''HeadObject''),
                send (HeadObject bucket key) w)
           | Some obj \<Rightarrow>
               (Inr \<lparr>ContentLength = length (obj_body obj),
                     LastModified = Aware (obj_last_modified obj) 0,
                     ContentType = obj_content_type obj\<rparr>,
                send (HeadObject bucket key) w)))"

definition put_object :: "string \<Rightarrow> string \<Rightarrow> byte list \<Rightarrow> string \<Rightarrow> world \<Rightarrow> (exc + unit) \<times> world" where
  "put_object bucket key body content_type w =
     (case fault w (PutObject bucket key body content_type) of
        Some e \<Rightarrow>
          (Inl (ClientError e ''PutObject''), send (PutObject bucket key body content_type) w)
      | None \<Rightarrow>
          (Inr (),
           (send (PutObject bucket key body content_type) w)
             \<lparr>objects :=
                store_object key
                  \<lparr>obj_body = body, obj_content_type = content_type, obj_last_modified = now w\<rparr>
                  (objects w)\<rparr>))"


definition nonempty :: "'a list \<Rightarrow> 'a list option" where
  "nonempty xs = (if xs = [] then None else Some xs)"

text \<open>A listing answers with at most \<open>MaxKeys\<close> entries; the default is 1000.\<close>

definition MaxKeys :: nat where
  "MaxKeys = 1000"

text \<open>
  \<open>list_objects(Bucket=...)\<close>: no prefix, no delimiter. The answer has a \<open>Contents\<close>
  entry exactly when the bucket holds an object.
\<close>

definition list_objects :: "string \<Rightarrow> world \<Rightarrow> (exc + page) \<times> world" where
  "list_objects bucket w =
     (case fault w (ListObjects bucket None None) of
        Some e \<Rightarrow> (Inl (ClientError e ''ListObjects''), send (ListObjects bucket None None) w)
      | None \<Rightarrow>
          (Inr \<lparr>Contents = nonempty (take MaxKeys (map fst (objects w))), CommonPrefixes = None\<rparr>,
           send (ListObjects bucket None None) w))"

text \<open>
  A listing with a prefix and a delimiter: a key under the prefix whose remainder holds
  the delimiter is rolled up into the common prefix that ends at the first delimiter,
  and each common prefix is listed once.
\<close>

datatype entry = KeyEntry string | PrefixEntry string

definition group_key :: "char \<Rightarrow> string \<Rightarrow> string \<Rightarrow> entry" where
  "group_key delimiter prefix key =
     (if delimiter \<in> set (drop (length prefix) key)
      then PrefixEntry (prefix @ takeWhile (\<lambda>c. c \<noteq> delimiter) (drop (length prefix) key) @ [delimiter])
      else KeyEntry key)"

definition list_entries :: "char \<Rightarrow> string \<Rightarrow> string list \<Rightarrow> entry list" where
  "list_entries delimiter prefix keys =
     rev (remdups (rev (map (group_key delimiter prefix) (filter (\<lambda>k. startswith k prefix) keys))))"

function chunks_of :: "nat \<Rightarrow> 'a list \<Rightarrow> 'a list list" where
  "chunks_of n xs = (if n = 0 \<or> xs = [] then [] else take n xs # chunks_of n (drop n xs))"
  by pat_completeness auto
termination
  by (relation "measure (\<lambda>(n, xs). length xs)") auto

declare chunks_of.simps [simp del]

fun entry_keys :: "entry list \<Rightarrow> string list" where
  "entry_keys [] = []"
| "entry_keys (KeyEntry k # es) = k # entry_keys es"
| "entry_keys (PrefixEntry p # es) = entry_keys es"

fun entry_prefixes :: "entry list \<Rightarrow> string list" where
  "entry_prefixes [] = []"
| "entry_prefixes (KeyEntry k # es) = entry_prefixes es"
| "entry_prefixes (PrefixEntry p # es) = p # entry_prefixes es"

definition to_page :: "entry list \<Rightarrow> page" where
  "to_page es = \<lparr>Contents = nonempty (entry_keys es), CommonPrefixes = nonempty (entry_prefixes es)\<rparr>"

definition list_pages :: "char \<Rightarrow> string \<Rightarrow> (string \<times> s3_object) list \<Rightarrow> page list" where
  "list_pages delimiter prefix objs =
     (if list_entries delimiter prefix (map fst objs) = [] then [to_page []]
      else map to_page (chunks_of MaxKeys (list_entries delimiter prefix (map fst objs))))"

text \<open>
  \<open>get_paginator("list_objects").paginate(Bucket, Delimiter, Prefix)\<close>: the pages the
  iteration will yield, or the error its first request raises. Creating the paginator
  sends nothing; the loop that iterates it sends one request for each page it reaches.
\<close>

definition paginate :: "string \<Rightarrow> char \<Rightarrow> string \<Rightarrow> world \<Rightarrow> exc + page list" where
  "paginate bucket delimiter prefix w =
     (case fault w (ListObjects bucket (Some prefix) (Some [delimiter])) of
        Some e \<Rightarrow> Inl (ClientError e ''ListObjects'')
      | None \<Rightarrow> Inr (list_pages delimiter prefix (objects w)))"

text \<open>
  \<^verbatim>\<open>
  def _temporary_file():
      return SpooledTemporaryFile(max_size=1024*1024*10)  # 10 MB.
  \<close>
\<close>

definition temporary_file :: "world \<Rightarrow> nat \<times> world" where
  "temporary_file w =
     (length (temp_files w),
      w\<lparr>temp_files := temp_files w @ [\<lparr>tf_data = [], tf_pos = 0, tf_closed = False\<rparr>]\<rparr>)"

definition tf_update :: "nat \<Rightarrow> (temp_file \<Rightarrow> temp_file) \<Rightarrow> world \<Rightarrow> world" where
  "tf_update h f w =
     (if h < length (temp_files w) then w\<lparr>temp_files := (temp_files w)[h := f (temp_files w ! h)]\<rparr>
      else w)"

definition tf_write :: "nat \<Rightarrow> byte list \<Rightarrow> world \<Rightarrow> world" where
  "tf_write h bs =
     tf_update h (\<lambda>t. t\<lparr>tf_data := take (tf_pos t) (tf_data t) @ bs @ drop (tf_pos t + length bs) (tf_data t),
                        tf_pos := tf_pos t + length bs\<rparr>)"

definition tf_seek :: "nat \<Rightarrow> nat \<Rightarrow> world \<Rightarrow> world" where
  "tf_seek h p = tf_update h (\<lambda>t. t\<lparr>tf_pos := p\<rparr>)"

definition tf_read :: "nat \<Rightarrow> world \<Rightarrow> byte list \<times> world" where
  "tf_read h w =
     (if h < length (temp_files w)
      then (drop (tf_pos (temp_files w ! h)) (tf_data (temp_files w ! h)),
            tf_update h (\<lambda>t. t\<lparr>tf_pos := max (tf_pos t) (length (tf_data t))\<rparr>) w)
      else ([], w))"

definition tf_close :: "nat \<Rightarrow> world \<Rightarrow> world" where
  "tf_close h = tf_update h (\<lambda>t. t\<lparr>tf_closed := True\<rparr>)"

section \<open>posixpath\<close>

definition isabs :: "string \<Rightarrow> bool" where
  "isabs s = startswith s ''/''"

text \<open>\<open>posixpath.join(a, b)\<close>.\<close>

definition path_join :: "string \<Rightarrow> string \<Rightarrow> string" where
  "path_join a b =
     (if startswith b ''/'' then b
      else if a = [] \<or> endswith a ''/'' then a @ b
      else a @ ''/'' @ b)"

text \<open>One round of the loop of \<open>posixpath.normpath\<close> over the components.\<close>

definition norm_step :: "bool \<Rightarrow> string list \<Rightarrow> string \<Rightarrow> string list" where
  "norm_step absolute new_comps c =
     (if c = [] \<or> c = ''.'' then new_comps
      else if c \<noteq> ''..'' \<or> (\<not> absolute \<and> new_comps = [])
                \<or> (new_comps \<noteq> [] \<and> last new_comps = ''..'')
      then new_comps @ [c]
      else if new_comps \<noteq> [] then butlast new_comps
      else new_comps)"

definition initial_slashes :: "string \<Rightarrow> nat" where
  "initial_slashes path =
     (if startswith path ''/''
      then (if startswith path ''//'' \<and> \<not> startswith path ''///'' then 2 else 1)
      else 0)"

definition normpath :: "string \<Rightarrow> string" where
  "normpath path =
     (if path = [] then ''.''
      else let p = replicate (initial_slashes path) CHR ''/''
                     @ join_with ''/''
                         (foldl (norm_step (initial_slashes path \<noteq> 0)) [] (split_on CHR ''/'' path))
           in if p = [] then ''.'' else p)"

definition abspath :: "string \<Rightarrow> string \<Rightarrow> string" where
  "abspath cwd path = normpath (if isabs path then path else path_join cwd path)"

fun common_len :: "'a list \<Rightarrow> 'a list \<Rightarrow> nat" where
  "common_len (x # xs) (y # ys) = (if x = y then Suc (common_len xs ys) else 0)"
| "common_len xs ys = 0"

text \<open>\<open>posixpath.relpath(path, start)\<close>, in a process whose working directory is \<open>cwd\<close>.\<close>

definition relpath :: "string \<Rightarrow> string \<Rightarrow> string \<Rightarrow> exc + string" where
  "relpath cwd path start =
     (if path = [] then Inl (ValueError ''no path specified'')
      else
        let start_list = filter (\<lambda>x. x \<noteq> []) (split_on CHR ''/'' (abspath cwd start));
            path_list = filter (\<lambda>x. x \<noteq> []) (split_on CHR ''/'' (abspath cwd path));
            i = common_len start_list path_list;
            rel_list = replicate (length start_list - i) ''..'' @ drop i path_list
        in if rel_list = [] then Inr ''.''
           else Inr (foldl path_join (hd rel_list) (tl rel_list)))"

section \<open>The adapter\<close>

subsection \<open>Error wrapping\<close>

text \<open>
  \<^verbatim>\<open>
  def _wrap_errors(func):
      @wraps(func)
      def _do_wrap_errors(self, name, *args, **kwargs):
          try:
              return func(self, name, *args, **kwargs)
          except ClientError as ex:
              raise S3Error("S3Storage error at {!r}: {}".format(name, force_text(ex)))
      return _do_wrap_errors
  \<close>
\<close>

definition error_message :: "string \<Rightarrow> exc \<Rightarrow> string" where
  "error_message name ex = ''S3Storage error at '' @ py_repr name @ '': '' @ force_text ex"

definition wrap_errors ::
  "(string \<Rightarrow> world \<Rightarrow> (exc + 'a) \<times> world) \<Rightarrow> string \<Rightarrow> world \<Rightarrow> (exc + 'a) \<times> world" where
  "wrap_errors func name w =
     (case func name w of
        (Inl (ClientError r operation), w') \<Rightarrow>
          (Inl (S3Error (error_message name (ClientError r operation))), w')
      | (Inl e, w') \<Rightarrow> (Inl e, w')
      | (Inr v, w') \<Rightarrow> (Inr v, w'))"

subsection \<open>Helpers\<close>

text \<open>
  \<^verbatim>\<open>
  def _get_key_name(self, name):
      if name.startswith("/"):
          name = name[1:]
      return name

  def _object_params(self, name):
      params = {
          "Bucket": settings.AWS_S3_BUCKET_NAME,
          "Key": self._get_key_name(name),
      }
      return params
  \<close>
\<close>

definition get_key_name :: "string \<Rightarrow> string" where
  "get_key_name name = (if startswith name ''/'' then drop 1 name else name)"

definition object_params :: "config \<Rightarrow> string \<Rightarrow> string \<times> string" where
  "object_params cfg name = (AWS_S3_BUCKET_NAME cfg, get_key_name name)"

subsection \<open>Open\<close>

text \<open>
  \<^verbatim>\<open>
  @_wrap_errors
  def _open(self, name, mode="rb"):
      if mode != "rb":
          raise ValueError("S3 files can only be opened in read-only mode")
      obj = self.s3_connection.get_object(**self._object_params(name))
      content = _temporary_file()
      shutil.copyfileobj(obj["Body"], content)
      content.seek(0)
      return S3File(content, name, self)
  \<close>
  \<open>open_func\<close> is the function under the decorator, \<open>S3Storage_open\<close> the decorated one.
\<close>

record s3_file =
  s3file_file :: nat
  s3file_name :: string

definition open_func :: "config \<Rightarrow> string \<Rightarrow> string \<Rightarrow> world \<Rightarrow> (exc + s3_file) \<times> world" where
  "open_func cfg mode name w =
     (if mode \<noteq> ''rb''
      then (Inl (ValueError ''S3 files can only be opened in read-only mode''), w)
      else case get_object (fst (object_params cfg name)) (snd (object_params cfg name)) w of
             (Inl e, w1) \<Rightarrow> (Inl e, w1)
           | (Inr obj, w1) \<Rightarrow>
               (let (content, w2) = temporary_file w1;
                    w3 = tf_write content (obj_body obj) w2;
                    w4 = tf_seek content 0 w3
                in (Inr \<lparr>s3file_file = content, s3file_name = name\<rparr>, w4)))"

definition S3Storage_open :: "config \<Rightarrow> string \<Rightarrow> string \<Rightarrow> world \<Rightarrow> (exc + s3_file) \<times> world" where
  "S3Storage_open cfg name mode = wrap_errors (open_func cfg mode) name"

text \<open>What a caller reads from the handle it was given.\<close>

definition read_file :: "s3_file \<Rightarrow> world \<Rightarrow> byte list" where
  "read_file f w = fst (tf_read (s3file_file f) w)"

subsection \<open>Save\<close>

text \<open>
  The content handed to \<open>_save\<close> is a binary file (its bytes and its read position) or
  a text file; \<open>content.chunks()\<close> yields a text in pieces of \<open>DEFAULT_CHUNK_SIZE\<close>.
  \<^verbatim>\<open>
  @_wrap_errors
  def _save(self, name, content):
      put_params = self._object_params(name)
      temp_files = []
      content.seek(0)
      if isinstance(content.file, TextIOBase):
          temp_file = _temporary_file()
          temp_files.append(temp_file)
          for chunk in content.chunks():
              temp_file.write(force_bytes(chunk))
          temp_file.seek(0)
          content = temp_file
      content_type, _ = mimetypes.guess_type(name, strict=False)
      content_type = content_type or "application/octet-stream"
      put_params["ContentType"] = content_type
      self.s3_connection.put_object(Body=content.read(), **put_params)
      for temp_file in temp_files:
          temp_file.close()
      return name
  \<close>
\<close>

datatype content = BinaryFile "byte list" nat | TextFile string

definition DEFAULT_CHUNK_SIZE :: nat where
  "DEFAULT_CHUNK_SIZE = 64 * 2 ^ 10"

definition chunks :: "string \<Rightarrow> string list" where
  "chunks text = chunks_of DEFAULT_CHUNK_SIZE text"

text \<open>
  The content type: \<open>guess_type(name)\<close> \<open>or\<close> the default, which also replaces an empty
  guess.
\<close>

definition content_type_for :: "config \<Rightarrow> string \<Rightarrow> string" where
  "content_type_for cfg name =
     (case guess_type cfg name of
        None \<Rightarrow> ''application/octet-stream''
      | Some t \<Rightarrow> if t = [] then ''application/octet-stream'' else t)"

definition save_func :: "config \<Rightarrow> content \<Rightarrow> string \<Rightarrow> world \<Rightarrow> (exc + string) \<times> world" where
  "save_func cfg content name w =
     (let put_params = object_params cfg name;
          (temps, body, w1) =
             (case content of
                TextFile text \<Rightarrow>
                  (let (tmp, wa) = temporary_file w;
                       wb = fold (\<lambda>chunk. tf_write tmp (force_bytes cfg chunk)) (chunks text) wa;
                       wc = tf_seek tmp 0 wb;
                       (bs, wd) = tf_read tmp wc
                   in ([tmp], bs, wd))
              | BinaryFile bs pos \<Rightarrow> ([], drop 0 bs, w));
          content_type = content_type_for cfg name
      in case put_object (fst put_params) (snd put_params) body content_type w1 of
           (Inl e, w2) \<Rightarrow> (Inl e, w2)
         | (Inr u, w2) \<Rightarrow> (Inr name, fold tf_close temps w2))"

definition S3Storage_save :: "config \<Rightarrow> string \<Rightarrow> content \<Rightarrow> world \<Rightarrow> (exc + string) \<times> world" where
  "S3Storage_save cfg name content = wrap_errors (save_func cfg content) name"

subsection \<open>Metadata and deletion\<close>

text \<open>
  \<^verbatim>\<open>
  @_wrap_errors
  def meta(self, name):
      return self.s3_connection.head_object(**self._object_params(name))

  @_wrap_errors
  def delete(self, name):
      self.s3_connection.delete_object(**self._object_params(name))
  \<close>
\<close>

definition meta_func :: "config \<Rightarrow> string \<Rightarrow> world \<Rightarrow> (exc + head_response) \<times> world" where
  "meta_func cfg name w =
     head_object (fst (object_params cfg name)) (snd (object_params cfg name)) w"

definition meta :: "config \<Rightarrow> string \<Rightarrow> world \<Rightarrow> (exc + head_response) \<times> world" where
  "meta cfg name = wrap_errors (meta_func cfg) name"



subsection \<open>Existence\<close>

text \<open>
  \<^verbatim>\<open>
  def exists(self, name):
      if name.endswith("/"):
          results = self.s3_connection.list_objects(
              Bucket=settings.AWS_S3_BUCKET_NAME,
          )
          return "Contents" in results
      try:
          self.meta(name)
      except S3Error:
          return self.exists(name + "/")
      else:
          return True
  \<close>
\<close>

function exists :: "config \<Rightarrow> string \<Rightarrow> world \<Rightarrow> (exc + bool) \<times> world" where
  "exists cfg name w =
     (if endswith name ''/''
      then (case list_objects (AWS_S3_BUCKET_NAME cfg) w of
              (Inl e, w') \<Rightarrow> (Inl e, w')
            | (Inr results, w') \<Rightarrow> (Inr (Contents results \<noteq> None), w'))
      else (case meta cfg name w of
              (Inl (S3Error m), w') \<Rightarrow> exists cfg (name @ ''/'') w'
            | (Inl e, w') \<Rightarrow> (Inl e, w')
            | (Inr md, w') \<Rightarrow> (Inr True, w')))"
  by pat_completeness auto
termination
  by (relation "measure (\<lambda>(cfg, name, w). if endswith name ''/'' then 0 else 1)")
     (auto simp: endswith_def)

declare exists.simps [simp del]

text \<open>
  The same function with the depth of the call stack bounded: \<open>None\<close> when the bound is
  reached before the call returns.
\<close>

fun exists_fuel :: "nat \<Rightarrow> config \<Rightarrow> string \<Rightarrow> world \<Rightarrow> ((exc + bool) \<times> world) option" where
  "exists_fuel 0 cfg name w = None"
| "exists_fuel (Suc depth) cfg name w =
     (if endswith name ''/''
      then (case list_objects (AWS_S3_BUCKET_NAME cfg) w of
              (Inl e, w') \<Rightarrow> Some (Inl e, w')
            | (Inr results, w') \<Rightarrow> Some (Inr (Contents results \<noteq> None), w'))
      else (case meta cfg name w of
              (Inl (S3Error m), w') \<Rightarrow> exists_fuel depth cfg (name @ ''/'') w'
            | (Inl e, w') \<Rightarrow> Some (Inl e, w')
            | (Inr md, w') \<Rightarrow> Some (Inr True, w')))"

subsection \<open>Listing\<close>

text \<open>
  \<^verbatim>\<open>
  def listdir(self, path):
      path = self._get_key_name(path)
      path = "" if path == "." else path + "/"
      files = []
      dirs = []
      paginator = self.s3_connection.get_paginator("list_objects")
      pages = paginator.paginate(
          Bucket=settings.AWS_S3_BUCKET_NAME,
          Delimiter="/",
          Prefix=path,
      )
      for page in pages:
          for entry in page.get("Contents", ()):
              files.append(posixpath.relpath(entry["Key"], path))
          for entry in page.get("CommonPrefixes", ()):
              dirs.append(posixpath.relpath(entry["Prefix"], path))
      return dirs, files
  \<close>
\<close>

definition page_get :: "'a list option \<Rightarrow> 'a list" where
  "page_get v = (case v of None \<Rightarrow> [] | Some xs \<Rightarrow> xs)"

text \<open>An inner loop: each entry, made relative to \<open>path\<close>, is appended to the list.\<close>

fun append_relative :: "string \<Rightarrow> string \<Rightarrow> string list \<Rightarrow> string list \<Rightarrow> exc + string list" where
  "append_relative cwd path [] acc = Inr acc"
| "append_relative cwd path (entry # entries) acc =
     (case relpath cwd entry path of
        Inl e \<Rightarrow> Inl e
      | Inr r \<Rightarrow> append_relative cwd path entries (acc @ [r]))"

text \<open>The outer loop over the pages; reaching a page sends its request.\<close>

fun listdir_pages ::
  "request \<Rightarrow> string \<Rightarrow> string \<Rightarrow> page list \<Rightarrow> string list \<Rightarrow> string list \<Rightarrow> world
     \<Rightarrow> (exc + string list \<times> string list) \<times> world" where
  "listdir_pages r cwd path [] files dirs w = (Inr (dirs, files), w)"
| "listdir_pages r cwd path (pg # pgs) files dirs w =
     (case append_relative cwd path (page_get (Contents pg)) files of
        Inl e \<Rightarrow> (Inl e, send r w)
      | Inr files' \<Rightarrow>
          (case append_relative cwd path (page_get (CommonPrefixes pg)) dirs of
             Inl e \<Rightarrow> (Inl e, send r w)
           | Inr dirs' \<Rightarrow> listdir_pages r cwd path pgs files' dirs' (send r w)))"

definition listdir_prefix :: "string \<Rightarrow> string" where
  "listdir_prefix path = (if get_key_name path = ''.'' then [] else get_key_name path @ ''/'')"

definition listdir :: "config \<Rightarrow> string \<Rightarrow> world \<Rightarrow> (exc + string list \<times> string list) \<times> world" where
  "listdir cfg path w =
     (case paginate (AWS_S3_BUCKET_NAME cfg) CHR ''/'' (listdir_prefix path) w of
        Inl e \<Rightarrow>
          (Inl e, send (ListObjects (AWS_S3_BUCKET_NAME cfg) (Some (listdir_prefix path)) (Some ''/'')) w)
      | Inr pages \<Rightarrow>
          listdir_pages (ListObjects (AWS_S3_BUCKET_NAME cfg) (Some (listdir_prefix path)) (Some ''/''))
            (getcwd cfg) (listdir_prefix path) pages [] [] w)"

subsection \<open>Size and timestamps\<close>


definition modified_time :: "config \<Rightarrow> string \<Rightarrow> world \<Rightarrow> (exc + datetime) \<times> world" where
  "modified_time cfg name w =
     (case meta cfg name w of
        (Inl e, w') \<Rightarrow> (Inl e, w')
      | (Inr md, w') \<Rightarrow> (make_naive (LastModified md) utc, w'))"



definition get_modified_time :: "config \<Rightarrow> string \<Rightarrow> world \<Rightarrow> (exc + datetime) \<times> world" where
  "get_modified_time cfg name w =
     (case meta cfg name w of
        (Inl e, w') \<Rightarrow> (Inl e, w')
      | (Inr md, w') \<Rightarrow>
          (if USE_TZ cfg then Inr (LastModified md)
           else make_naive (LastModified md) (current_timezone cfg), w'))"



section \<open>Sample configurations and worlds\<close>

text \<open>Concrete settings and backend states, used to run the adapter on explicit inputs.\<close>

definition sample_config :: config where
  "sample_config =
     \<lparr>AWS_S3_BUCKET_NAME = ''media'', USE_TZ = False, current_timezone = (\<lambda>_. 3600),
      guess_type = (\<lambda>_. None), force_bytes = map of_char, getcwd = ''/srv/app''\<rparr>"

definition empty_world :: world where
  "empty_world = \<lparr>objects = [], fault = (\<lambda>_. None), calls = [], now = 0, temp_files = []\<rparr>"

definition forbidden_world :: world where
  "forbidden_world =
     \<lparr>objects = [], 
      fault = (\<lambda>r. case r of HeadObject b k \<Rightarrow> Some (ErrorResponse ''403'' ''Forbidden'') | _ \<Rightarrow> None),
      calls = [], now = 0, temp_files = []\<rparr>"

definition two_file_world :: world where
  "two_file_world =
     \<lparr>objects =
        [(''a.txt'', \<lparr>obj_body = [104, 105], obj_content_type = ''text/plain'', obj_last_modified = 0\<rparr>),
         (''b/c.txt'', \<lparr>obj_body = [], obj_content_type = ''text/plain'', obj_last_modified = 60\<rparr>)],
      fault = (\<lambda>_. None), calls = [], now = 100, temp_files = []\<rparr>"

definition aware_config :: config where
  "aware_config = sample_config\<lparr>USE_TZ := True\<rparr>"

definition upload_failure_world :: world where
  "upload_failure_world =
     \<lparr>objects = [],
      fault = (\<lambda>r. case r of PutObject b k body ct \<Rightarrow> Some (ErrorResponse ''500'' ''Internal Error'')
                   | _ \<Rightarrow> None),
      calls = [], now = 0, temp_files = []\<rparr>"


section \<open>Properties of the key mapper\<close>

lemma startswith_sep: "startswith s ''/'' = (\<exists>r. s = CHR ''/'' # r)"
  by (cases s) (auto simp: startswith_def)

lemma startswith_sep2: "startswith s ''//'' = (\<exists>r. s = CHR ''/'' # CHR ''/'' # r)"
proof (cases s)
  case Nil
  then show ?thesis by (simp add: startswith_def)
next
  case (Cons a t)
  then show ?thesis by (cases t) (auto simp: startswith_def)
qed

text \<open>
  C7, as stated, fails: the key mapper applied twice to a path that starts with two
  separators strips both, so it is not idempotent there.
\<close>

theorem get_key_name_twice_counterexample:
  "get_key_name (get_key_name ''//a'') \<noteq> get_key_name ''//a''"
  by (simp add: get_key_name_def startswith_def)

text \<open>
  C7, amended: the key mapper removes exactly one leading separator when the path starts
  with one and returns every other path unchanged; applying it twice gives the same key
  as applying it once exactly for the paths that do not start with two separators.
\<close>

theorem get_key_name_strips_one:
  "(startswith x ''/'' \<longrightarrow> x = CHR ''/'' # get_key_name x)
   \<and> (\<not> startswith x ''/'' \<longrightarrow> get_key_name x = x)
   \<and> ((get_key_name (get_key_name x) = get_key_name x) = (\<not> startswith x ''//''))"
proof (intro conjI impI)
  assume "startswith x ''/''"
  then show "x = CHR ''/'' # get_key_name x"
    by (auto simp: get_key_name_def startswith_sep)
next
  assume "\<not> startswith x ''/''"
  then show "get_key_name x = x" by (simp add: get_key_name_def)
next
  show "(get_key_name (get_key_name x) = get_key_name x) = (\<not> startswith x ''//'')"
  proof (cases "startswith x ''/''")
    case True
    then obtain r where x: "x = CHR ''/'' # r" by (auto simp: startswith_sep)
    show ?thesis
    proof (cases "startswith r ''/''")
      case True
      then obtain r' where "r = CHR ''/'' # r'" by (auto simp: startswith_sep)
      with x show ?thesis
        by (simp add: get_key_name_def startswith_sep startswith_sep2)
    next
      case False
      with x show ?thesis
        by (auto simp: get_key_name_def startswith_sep startswith_sep2)
    qed
  next
    case False
    then have "\<not> startswith x ''//''" by (auto simp: startswith_sep startswith_sep2)
    with False show ?thesis by (simp add: get_key_name_def)
  qed
qed

theorem get_key_name_strips_one_witness:
  "startswith ''/a/b'' ''/'' \<and> ''/a/b'' = CHR ''/'' # get_key_name ''/a/b''
   \<and> \<not> startswith ''a/b'' ''/'' \<and> get_key_name ''a/b'' = ''a/b''
   \<and> get_key_name (get_key_name ''/a/b'') = get_key_name ''/a/b''"
  using get_key_name_strips_one [of "''/a/b''"] get_key_name_strips_one [of "''a/b''"]
  by (simp add: startswith_def)

section \<open>Opening in another mode\<close>

text \<open>
  C5: for every path and every mode other than \<open>rb\<close>, opening fails at once with the
  error for an unsupported mode (a \<open>ValueError\<close>), and the world is left as it was: no
  request has been sent to the backend.
\<close>

theorem open_other_mode_rejected:
  "mode \<noteq> ''rb'' \<Longrightarrow>
     S3Storage_open cfg name mode w
       = (Inl (ValueError ''S3 files can only be opened in read-only mode''), w)"
  by (simp add: S3Storage_open_def wrap_errors_def open_func_def)

theorem open_other_mode_rejected_witness:
  "''wb'' \<noteq> ''rb''
   \<and> fst (S3Storage_open sample_config ''a.txt'' ''wb'' empty_world)
       = Inl (ValueError ''S3 files can only be opened in read-only mode'')
   \<and> calls (snd (S3Storage_open sample_config ''a.txt'' ''wb'' empty_world)) = []"
  using open_other_mode_rejected [of "''wb''" sample_config "''a.txt''" empty_world]
  by (simp add: empty_world_def)

section \<open>Existence\<close>


lemma endswith_append_sep: "endswith (name @ ''/'') ''/''"
  by (simp add: endswith_def)

lemma list_objects_world: "snd (list_objects b w) = send (ListObjects b None None) w"
  by (simp add: list_objects_def split: option.splits)

lemma list_objects_fault:
  "fault w (ListObjects b None None) = Some e \<Longrightarrow>
     fst (list_objects b w) = Inl (ClientError e ''ListObjects'')"
  by (simp add: list_objects_def)

lemma nonempty_None: "(nonempty xs = None) = (xs = [])"
  by (simp add: nonempty_def)

lemma nonempty_Some: "(\<exists>y. nonempty xs = Some y) = (xs \<noteq> [])"
  by (simp add: nonempty_def)

lemma list_objects_ok:
  "fault w (ListObjects b None None) = None \<Longrightarrow>
     \<exists>results. fst (list_objects b w) = Inr results \<and> (Contents results \<noteq> None) = (objects w \<noteq> [])"
  by (simp add: list_objects_def nonempty_Some MaxKeys_def)

lemma exists_probe:
  "endswith name ''/'' \<Longrightarrow>
     exists cfg name w =
       (case list_objects (AWS_S3_BUCKET_NAME cfg) w of
          (Inl e, w') \<Rightarrow> (Inl e, w')
        | (Inr results, w') \<Rightarrow> (Inr (Contents results \<noteq> None), w'))"
  by (subst exists.simps) simp

lemma exists_file:
  "\<not> endswith name ''/'' \<Longrightarrow>
     exists cfg name w =
       (case meta cfg name w of
          (Inl (S3Error m), w') \<Rightarrow> exists cfg (name @ ''/'') w'
        | (Inl e, w') \<Rightarrow> (Inl e, w')
        | (Inr md, w') \<Rightarrow> (Inr True, w'))"
  by (subst exists.simps) simp

text \<open>
  C2: for every path that ends with the separator, \<open>exists\<close> sends exactly one listing
  request, for the whole bucket (no prefix, no delimiter), and, when that request is
  answered, returns true exactly when the bucket holds at least one object; it does the
  same for every other path that ends with the separator.
\<close>

theorem exists_directory_probe:
  assumes "endswith name ''/''"
  shows "snd (exists cfg name w) = send (ListObjects (AWS_S3_BUCKET_NAME cfg) None None) w
         \<and> (fault w (ListObjects (AWS_S3_BUCKET_NAME cfg) None None) = None
              \<longrightarrow> fst (exists cfg name w) = Inr (objects w \<noteq> []))
         \<and> (\<forall>other. endswith other ''/'' \<longrightarrow> exists cfg other w = exists cfg name w)"
proof (intro conjI impI allI)
  show "snd (exists cfg name w) = send (ListObjects (AWS_S3_BUCKET_NAME cfg) None None) w"
    using assms list_objects_world [of "AWS_S3_BUCKET_NAME cfg" w]
    by (auto simp: exists_probe split: prod.splits sum.splits)
next
  assume "fault w (ListObjects (AWS_S3_BUCKET_NAME cfg) None None) = None"
  from list_objects_ok [OF this]
  show "fst (exists cfg name w) = Inr (objects w \<noteq> [])"
    using assms by (auto simp: exists_probe split: prod.splits sum.splits)
next
  fix other assume "endswith other ''/''"
  then show "exists cfg other w = exists cfg name w"
    using assms by (simp add: exists_probe)
qed

lemma exists_fuel_probe:
  "endswith name ''/'' \<Longrightarrow> exists_fuel (Suc n) cfg name w = Some (exists cfg name w)"
  by (simp add: exists_probe split: prod.splits sum.splits)

text \<open>
  C10: \<open>exists\<close> returns for every path with a call stack of depth two at most: the
  recursive call appends the separator, and a path that ends with the separator is
  answered without recursion.
\<close>

theorem exists_returns_within_two_calls:
  "exists_fuel 2 cfg name w = Some (exists cfg name w)
   \<and> (endswith name ''/'' \<longrightarrow> exists_fuel 1 cfg name w = Some (exists cfg name w))
   \<and> endswith (name @ ''/'') ''/''"
proof (intro conjI impI)
  show "exists_fuel 2 cfg name w = Some (exists cfg name w)"
  proof (cases "endswith name ''/''")
    case True
    then show ?thesis using exists_fuel_probe [of name "Suc 0"] by (simp add: numeral_2_eq_2)
  next
    case False
    have step: "exists_fuel (Suc 0) cfg (name @ ''/'') w' = Some (exists cfg (name @ ''/'') w')" for w'
      by (rule exists_fuel_probe [OF endswith_append_sep])
    show ?thesis
      using False
      by (simp add: numeral_2_eq_2 exists_file step del: exists_fuel.simps(2)
               add: exists_fuel.simps(2) [of "Suc 0"]
               split: prod.splits sum.splits exc.splits)
  qed
next
  assume "endswith name ''/''"
  then show "exists_fuel 1 cfg name w = Some (exists cfg name w)"
    using exists_fuel_probe [of name 0] by simp
next
  show "endswith (name @ ''/'') ''/''" by (rule endswith_append_sep)
qed


lemma wrap_errors_fst:
  "fst (wrap_errors func name w) =
     (case fst (func name w) of
        Inl (ClientError r operation) \<Rightarrow> Inl (S3Error (error_message name (ClientError r operation)))
      | Inl e \<Rightarrow> Inl e
      | Inr v \<Rightarrow> Inr v)"
  by (simp add: wrap_errors_def split: prod.splits sum.splits exc.splits)

lemma wrap_errors_snd: "snd (wrap_errors func name w) = snd (func name w)"
  by (simp add: wrap_errors_def split: prod.splits sum.splits exc.splits)

lemma head_object_world: "snd (head_object b k w) = send (HeadObject b k) w"
  by (simp add: head_object_def split: option.splits)

lemma head_object_error:
  "fst (head_object b k w) = Inl e \<Longrightarrow> \<exists>r. e = ClientError r ''HeadObject''"
  by (auto simp: head_object_def split: option.splits)

lemma meta_world:
  "snd (meta cfg name w) = send (HeadObject (AWS_S3_BUCKET_NAME cfg) (get_key_name name)) w"
  by (simp add: meta_def wrap_errors_snd meta_func_def head_object_world object_params_def)

lemma meta_error:
  assumes "fst (meta cfg name w) = Inl e"
  shows "\<exists>r. e = S3Error (error_message name (ClientError r ''HeadObject''))"
proof -
  let ?h = "head_object (AWS_S3_BUCKET_NAME cfg) (get_key_name name) w"
  from assms have a: "(case fst ?h of
        Inl (ClientError r operation) \<Rightarrow> Inl (S3Error (error_message name (ClientError r operation)))
      | Inl e \<Rightarrow> Inl e
      | Inr v \<Rightarrow> Inr v) = Inl e"
    by (simp add: meta_def wrap_errors_fst meta_func_def object_params_def)
  show ?thesis
  proof (cases "fst ?h")
    case (Inl x)
    from head_object_error [OF Inl] obtain r where "x = ClientError r ''HeadObject''" by blast
    with a Inl show ?thesis by auto
  next
    case (Inr v)
    with a show ?thesis by simp
  qed
qed

lemma exists_never_S3Error: "fst (exists cfg name w) \<noteq> Inl (S3Error m)"
proof -
  have probe: "fst (exists cfg p w') \<noteq> Inl (S3Error m)" if "endswith p ''/''" for p w'
    using that
    by (auto simp: exists_probe list_objects_def split: prod.splits sum.splits option.splits)
  show ?thesis
  proof (cases "endswith name ''/''")
    case True
    then show ?thesis by (rule probe)
  next
    case False
    show ?thesis
    proof (cases "fst (meta cfg name w)")
      case (Inl e)
      from meta_error [OF Inl] obtain r where e: "e = S3Error (error_message name (ClientError r ''HeadObject''))"
        by blast
      have "exists cfg name w = exists cfg (name @ ''/'') (snd (meta cfg name w))"
        using False Inl e by (cases "meta cfg name w") (simp add: exists_file)
      then show ?thesis using probe [OF endswith_append_sep] by simp
    next
      case (Inr md)
      then show ?thesis using False by (cases "meta cfg name w") (simp add: exists_file)
    qed
  qed
qed

lemma exists_probe_world:
  "endswith p ''/'' \<Longrightarrow>
     snd (exists cfg p w) = send (ListObjects (AWS_S3_BUCKET_NAME cfg) None None) w"
  using list_objects_world [of "AWS_S3_BUCKET_NAME cfg" w]
  by (auto simp: exists_probe split: prod.splits sum.splits)

lemma exists_probe_answered:
  assumes "endswith p ''/''" and "fault w (ListObjects (AWS_S3_BUCKET_NAME cfg) None None) = None"
  shows "fst (exists cfg p w) = Inr (objects w \<noteq> [])"
  using list_objects_ok [OF assms(2)] assms(1)
  by (auto simp: exists_probe split: prod.splits sum.splits)

text \<open>
  C3, amended: for every path that does not end with the separator, \<open>exists\<close> first
  asks \<open>meta\<close> (one \<open>HeadObject\<close> request); when \<open>meta\<close> succeeds it returns true;
  when \<open>meta\<close> fails with a storage error of any kind, not-found or not, it goes on as
  the directory probe of the path with the separator appended (one unscoped listing
  request) and returns what the probe returns: when the listing is answered, true
  exactly when the bucket holds at least one object. No storage error raised by
  \<open>meta\<close> reaches the caller of \<open>exists\<close>.
\<close>

theorem exists_file_probe:
  assumes "\<not> endswith name ''/''"
  shows "snd (meta cfg name w) = send (HeadObject (AWS_S3_BUCKET_NAME cfg) (get_key_name name)) w
         \<and> (\<forall>md. fst (meta cfg name w) = Inr md
               \<longrightarrow> exists cfg name w = (Inr True, snd (meta cfg name w)))
         \<and> (\<forall>m. fst (meta cfg name w) = Inl (S3Error m)
               \<longrightarrow> exists cfg name w = exists cfg (name @ ''/'') (snd (meta cfg name w))
                 \<and> calls (snd (exists cfg name w))
                     = calls w @ [HeadObject (AWS_S3_BUCKET_NAME cfg) (get_key_name name),
                                  ListObjects (AWS_S3_BUCKET_NAME cfg) None None]
                 \<and> (fault w (ListObjects (AWS_S3_BUCKET_NAME cfg) None None) = None
                       \<longrightarrow> fst (exists cfg name w) = Inr (objects w \<noteq> [])))
         \<and> endswith (name @ ''/'') ''/''
         \<and> (\<forall>m. fst (exists cfg name w) \<noteq> Inl (S3Error m))"
proof (intro conjI allI impI)
  show "snd (meta cfg name w) = send (HeadObject (AWS_S3_BUCKET_NAME cfg) (get_key_name name)) w"
    by (rule meta_world)
next
  fix md assume "fst (meta cfg name w) = Inr md"
  then show "exists cfg name w = (Inr True, snd (meta cfg name w))"
    using assms by (cases "meta cfg name w") (simp add: exists_file)
next
  fix m assume m: "fst (meta cfg name w) = Inl (S3Error m)"
  then show r: "exists cfg name w = exists cfg (name @ ''/'') (snd (meta cfg name w))"
    using assms by (cases "meta cfg name w") (simp add: exists_file)
  show "calls (snd (exists cfg name w))
          = calls w @ [HeadObject (AWS_S3_BUCKET_NAME cfg) (get_key_name name),
                       ListObjects (AWS_S3_BUCKET_NAME cfg) None None]"
    by (simp add: r exists_probe_world [OF endswith_append_sep] meta_world send_def)
  assume "fault w (ListObjects (AWS_S3_BUCKET_NAME cfg) None None) = None"
  then have "fault (snd (meta cfg name w)) (ListObjects (AWS_S3_BUCKET_NAME cfg) None None) = None"
    by (simp add: meta_world send_def)
  from exists_probe_answered [OF endswith_append_sep this]
  show "fst (exists cfg name w) = Inr (objects w \<noteq> [])"
    by (simp add: r meta_world send_def)
next
  show "endswith (name @ ''/'') ''/''" by (rule endswith_append_sep)
next
  fix m show "fst (exists cfg name w) \<noteq> Inl (S3Error m)" by (rule exists_never_S3Error)
qed

text \<open>
  C3, as stated, fails: when \<open>HeadObject\<close> is answered with 403 Forbidden, \<open>meta\<close>
  fails with a storage error that is not of the not-found class, and \<open>exists\<close> returns
  false instead of raising it.
\<close>

theorem exists_other_error_counterexample:
  "fst (meta sample_config ''x'' forbidden_world)
     = Inl (S3Error (error_message ''x'' (ClientError (ErrorResponse ''403'' ''Forbidden'') ''HeadObject'')))
   \<and> fst (exists sample_config ''x'' forbidden_world) = Inr False"
  by code_simp

theorem exists_file_probe_witness:
  "\<not> endswith ''x'' ''/''
   \<and> fst (meta sample_config ''x'' forbidden_world)
       = Inl (S3Error (error_message ''x'' (ClientError (ErrorResponse ''403'' ''Forbidden'') ''HeadObject'')))
   \<and> exists sample_config ''x'' forbidden_world
       = exists sample_config (''x'' @ ''/'') (snd (meta sample_config ''x'' forbidden_world))
   \<and> calls (snd (exists sample_config ''x'' forbidden_world))
       = calls forbidden_world
           @ [HeadObject (AWS_S3_BUCKET_NAME sample_config) (get_key_name ''x''),
              ListObjects (AWS_S3_BUCKET_NAME sample_config) None None]
   \<and> fault forbidden_world (ListObjects (AWS_S3_BUCKET_NAME sample_config) None None) = None
   \<and> fst (exists sample_config ''x'' forbidden_world) = Inr (objects forbidden_world \<noteq> [])
   \<and> objects forbidden_world = []
   \<and> \<not> endswith ''a.txt'' ''/''
   \<and> fst (meta sample_config ''a.txt'' two_file_world)
       = Inr \<lparr>ContentLength = 2, LastModified = Aware 0 0, ContentType = ''text/plain''\<rparr>
   \<and> exists sample_config ''a.txt'' two_file_world
       = (Inr True, snd (meta sample_config ''a.txt'' two_file_world))"
proof -
  have a: "\<not> endswith ''x'' ''/''" by code_simp
  have b: "fst (meta sample_config ''x'' forbidden_world)
       = Inl (S3Error (error_message ''x'' (ClientError (ErrorResponse ''403'' ''Forbidden'') ''HeadObject'')))"
    by code_simp
  have c: "\<not> endswith ''a.txt'' ''/''" by code_simp
  have d: "fst (meta sample_config ''a.txt'' two_file_world)
       = Inr \<lparr>ContentLength = 2, LastModified = Aware 0 0, ContentType = ''text/plain''\<rparr>"
    by code_simp
  have l: "fault forbidden_world (ListObjects (AWS_S3_BUCKET_NAME sample_config) None None) = None"
    by (simp add: forbidden_world_def)
  have o: "objects forbidden_world = []" by (simp add: forbidden_world_def)
  note t = exists_file_probe [OF a, of sample_config forbidden_world]
  from t b
  have e: "exists sample_config ''x'' forbidden_world
       = exists sample_config (''x'' @ ''/'') (snd (meta sample_config ''x'' forbidden_world))"
    by blast
  from t b
  have g: "calls (snd (exists sample_config ''x'' forbidden_world))
       = calls forbidden_world
           @ [HeadObject (AWS_S3_BUCKET_NAME sample_config) (get_key_name ''x''),
              ListObjects (AWS_S3_BUCKET_NAME sample_config) None None]"
    by blast
  from t b l
  have h: "fst (exists sample_config ''x'' forbidden_world) = Inr (objects forbidden_world \<noteq> [])"
    by blast
  from exists_file_probe [OF c, of sample_config two_file_world] d
  have f: "exists sample_config ''a.txt'' two_file_world
       = (Inr True, snd (meta sample_config ''a.txt'' two_file_world))"
    by blast
  from a b c d e f g h l o show ?thesis by blast
qed

theorem exists_directory_probe_witness:
  "endswith ''no/such/dir/'' ''/''
   \<and> fault two_file_world (ListObjects (AWS_S3_BUCKET_NAME sample_config) None None) = None
   \<and> fst (exists sample_config ''no/such/dir/'' two_file_world) = Inr (objects two_file_world \<noteq> [])
   \<and> objects two_file_world \<noteq> []
   \<and> calls (snd (exists sample_config ''no/such/dir/'' two_file_world)) = [ListObjects ''media'' None None]
   \<and> endswith ''b/'' ''/''
   \<and> exists sample_config ''b/'' two_file_world = exists sample_config ''no/such/dir/'' two_file_world"
proof -
  have a: "endswith ''no/such/dir/'' ''/''" by code_simp
  have b: "fault two_file_world (ListObjects (AWS_S3_BUCKET_NAME sample_config) None None) = None"
    by (simp add: two_file_world_def)
  have c: "endswith ''b/'' ''/''" by code_simp
  have d: "objects two_file_world \<noteq> []" by (simp add: two_file_world_def)
  have e: "calls (snd (exists sample_config ''no/such/dir/'' two_file_world)) = [ListObjects ''media'' None None]"
    by code_simp
  note t = exists_directory_probe [OF a, of sample_config two_file_world]
  from t b have f: "fst (exists sample_config ''no/such/dir/'' two_file_world) = Inr (objects two_file_world \<noteq> [])"
    by blast
  from t c have g: "exists sample_config ''b/'' two_file_world = exists sample_config ''no/such/dir/'' two_file_world"
    by blast
  from a b c d e f g show ?thesis by blast
qed

theorem exists_returns_within_two_calls_witness:
  "endswith ''b/'' ''/''
   \<and> exists_fuel 1 sample_config ''b/'' two_file_world = Some (exists sample_config ''b/'' two_file_world)
   \<and> exists_fuel 2 sample_config ''missing.txt'' empty_world
       = Some (exists sample_config ''missing.txt'' empty_world)"
proof -
  have a: "endswith ''b/'' ''/''" by code_simp
  from exists_returns_within_two_calls [of sample_config "''b/''" two_file_world] a
  have b: "exists_fuel 1 sample_config ''b/'' two_file_world = Some (exists sample_config ''b/'' two_file_world)"
    by blast
  from exists_returns_within_two_calls [of sample_config "''missing.txt''" empty_world]
  have c: "exists_fuel 2 sample_config ''missing.txt'' empty_world
       = Some (exists sample_config ''missing.txt'' empty_world)"
    by blast
  from a b c show ?thesis by blast
qed

section \<open>Timestamps of an object\<close>

lemma map_of_store_object: "map_of (store_object k v xs) k = Some v"
  by (induction xs) auto

lemma head_object_found:
  "fault w (HeadObject b k) = None \<Longrightarrow> map_of (objects w) k = Some obj \<Longrightarrow>
     fst (head_object b k w)
       = Inr \<lparr>ContentLength = length (obj_body obj),
              LastModified = Aware (obj_last_modified obj) 0,
              ContentType = obj_content_type obj\<rparr>"
  by (simp add: head_object_def)

lemma meta_found:
  "fault w (HeadObject (AWS_S3_BUCKET_NAME cfg) (get_key_name name)) = None \<Longrightarrow>
   map_of (objects w) (get_key_name name) = Some obj \<Longrightarrow>
     fst (meta cfg name w)
       = Inr \<lparr>ContentLength = length (obj_body obj),
              LastModified = Aware (obj_last_modified obj) 0,
              ContentType = obj_content_type obj\<rparr>"
  by (simp add: meta_def wrap_errors_fst meta_func_def object_params_def head_object_found)

text \<open>
  C9, amended: for every path whose object exists and whose metadata request is answered,
  \<open>get_modified_time\<close> returns the backend's UTC-aware timestamp unchanged when aware
  timestamps are configured, and otherwise the naive wall-clock reading of that instant
  in the application's current time zone (naive UTC only where that zone's offset is
  zero); \<open>modified_time\<close> returns the naive UTC reading whatever the configuration.
\<close>

theorem modified_time_accessors:
  assumes "fault w (HeadObject (AWS_S3_BUCKET_NAME cfg) (get_key_name name)) = None"
      and "map_of (objects w) (get_key_name name) = Some obj"
  shows "fst (get_modified_time cfg name w)
           = Inr (if USE_TZ cfg then Aware (obj_last_modified obj) 0
                  else Naive (obj_last_modified obj + current_timezone cfg (obj_last_modified obj)))
         \<and> fst (modified_time cfg name w) = Inr (Naive (obj_last_modified obj))"
proof -
  from meta_found [OF assms] obtain w' where
    m: "meta cfg name w = (Inr \<lparr>ContentLength = length (obj_body obj),
              LastModified = Aware (obj_last_modified obj) 0,
              ContentType = obj_content_type obj\<rparr>, w')"
    by (cases "meta cfg name w") simp
  show ?thesis
    by (simp add: get_modified_time_def modified_time_def m utc_def)
qed

text \<open>
  C9, as stated, fails twice over. With naive timestamps configured and a current time
  zone one hour ahead of UTC, \<open>get_modified_time\<close> returns the local wall-clock reading,
  3660, where naive UTC is 60; and \<open>modified_time\<close> returns a naive value also when aware
  timestamps are configured.
\<close>

theorem modified_time_counterexample:
  "fst (meta sample_config ''b/c.txt'' two_file_world)
     = Inr \<lparr>ContentLength = 0, LastModified = Aware 60 0, ContentType = ''text/plain''\<rparr>
   \<and> make_naive (Aware 60 0) utc = Inr (Naive 60)
   \<and> \<not> USE_TZ sample_config
   \<and> fst (get_modified_time sample_config ''b/c.txt'' two_file_world) = Inr (Naive 3660)
   \<and> USE_TZ aware_config
   \<and> fst (modified_time aware_config ''b/c.txt'' two_file_world) = Inr (Naive 60)"
  by code_simp

theorem modified_time_accessors_witness:
  "fault two_file_world (HeadObject (AWS_S3_BUCKET_NAME sample_config) (get_key_name ''/b/c.txt'')) = None
   \<and> map_of (objects two_file_world) (get_key_name ''/b/c.txt'')
       = Some \<lparr>obj_body = [], obj_content_type = ''text/plain'', obj_last_modified = 60\<rparr>
   \<and> fst (get_modified_time sample_config ''/b/c.txt'' two_file_world) = Inr (Naive 3660)
   \<and> fst (modified_time sample_config ''/b/c.txt'' two_file_world) = Inr (Naive 60)"
proof -
  have a: "fault two_file_world (HeadObject (AWS_S3_BUCKET_NAME sample_config) (get_key_name ''/b/c.txt'')) = None"
    by (simp add: two_file_world_def)
  have b: "map_of (objects two_file_world) (get_key_name ''/b/c.txt'')
       = Some \<lparr>obj_body = [], obj_content_type = ''text/plain'', obj_last_modified = 60\<rparr>"
    by (simp add: two_file_world_def get_key_name_def startswith_def)
  from modified_time_accessors [OF a b]
  show ?thesis using a b by (simp add: sample_config_def)
qed

section \<open>The temporary buffer of a text save\<close>

lemma tf_update_frame [simp]:
  "objects (tf_update h f w) = objects w"
  "fault (tf_update h f w) = fault w"
  "calls (tf_update h f w) = calls w"
  "now (tf_update h f w) = now w"
  "length (temp_files (tf_update h f w)) = length (temp_files w)"
  by (simp_all add: tf_update_def)

lemma tf_update_closed:
  assumes "\<And>t. tf_closed (f t) = tf_closed t"
  shows "map tf_closed (temp_files (tf_update h f w)) = map tf_closed (temp_files w)"
proof (cases "h < length (temp_files w)")
  case True
  have "(map tf_closed (temp_files w))[h := tf_closed (f (temp_files w ! h))] = map tf_closed (temp_files w)"
    using True by (simp add: assms list_update_same_conv)
  with True show ?thesis by (simp add: tf_update_def map_update)
next
  case False
  then show ?thesis by (simp add: tf_update_def)
qed

lemma tf_write_closed [simp]:
  "map tf_closed (temp_files (tf_write h bs w)) = map tf_closed (temp_files w)"
  by (simp add: tf_write_def tf_update_closed)

lemma tf_seek_closed [simp]:
  "map tf_closed (temp_files (tf_seek h p w)) = map tf_closed (temp_files w)"
  by (simp add: tf_seek_def tf_update_closed)

lemma tf_read_closed [simp]:
  "map tf_closed (temp_files (snd (tf_read h w))) = map tf_closed (temp_files w)"
  by (simp add: tf_read_def tf_update_closed)

lemma tf_write_frame [simp]:
  "fault (tf_write h bs w) = fault w" "objects (tf_write h bs w) = objects w"
  "calls (tf_write h bs w) = calls w"
  by (simp_all add: tf_write_def)

lemma tf_seek_frame [simp]:
  "fault (tf_seek h p w) = fault w" "objects (tf_seek h p w) = objects w"
  "calls (tf_seek h p w) = calls w"
  by (simp_all add: tf_seek_def)

lemma tf_read_frame [simp]:
  "fault (snd (tf_read h w)) = fault w" "objects (snd (tf_read h w)) = objects w"
  "calls (snd (tf_read h w)) = calls w"
  by (simp_all add: tf_read_def)

lemma tf_length [simp]:
  "length (temp_files (tf_write h bs w)) = length (temp_files w)"
  "length (temp_files (tf_seek h p w)) = length (temp_files w)"
  "length (temp_files (snd (tf_read h w))) = length (temp_files w)"
  by (simp_all add: tf_write_def tf_seek_def tf_read_def)

lemma fold_tf_write_length [simp]:
  "length (temp_files (fold (\<lambda>chunk. tf_write h (g chunk)) cs w)) = length (temp_files w)"
  by (induction cs arbitrary: w) simp_all

lemma fold_tf_write_closed [simp]:
  "map tf_closed (temp_files (fold (\<lambda>chunk. tf_write h (g chunk)) cs w)) = map tf_closed (temp_files w)"
  by (induction cs arbitrary: w) simp_all

lemma fold_tf_write_frame [simp]:
  "fault (fold (\<lambda>chunk. tf_write h (g chunk)) cs w) = fault w"
  "objects (fold (\<lambda>chunk. tf_write h (g chunk)) cs w) = objects w"
  "calls (fold (\<lambda>chunk. tf_write h (g chunk)) cs w) = calls w"
  by (induction cs arbitrary: w) simp_all

lemma put_object_temp_files [simp]:
  "temp_files (snd (put_object b k body ct w)) = temp_files w"
  by (simp add: put_object_def send_def split: option.splits)

lemma put_object_fst:
  "fst (put_object b k body ct w)
     = (case fault w (PutObject b k body ct) of
          Some e \<Rightarrow> Inl (ClientError e ''PutObject'')
        | None \<Rightarrow> Inr ())"
  by (simp add: put_object_def split: option.splits)

lemma tf_close_closed:
  "map tf_closed (temp_files (tf_close h w))
     = (if h < length (temp_files w) then (map tf_closed (temp_files w))[h := True]
        else map tf_closed (temp_files w))"
  by (simp add: tf_close_def tf_update_def map_update)

lemma update_last_of_map: "(map g xs @ [a])[length xs := b] = map g xs @ [b]"
  using list_update_length [of "map g xs" a "[]" b] by simp

text \<open>The world in which the text has been written to a fresh buffer and read back.\<close>

lemma save_func_text:
  "save_func cfg (TextFile text) name w =
     (case put_object (AWS_S3_BUCKET_NAME cfg) (get_key_name name)
             (fst (tf_read (length (temp_files w))
                    (tf_seek (length (temp_files w)) 0
                      (fold (\<lambda>chunk. tf_write (length (temp_files w)) (force_bytes cfg chunk)) (chunks text)
                        (snd (temporary_file w))))))
             (content_type_for cfg name)
             (snd (tf_read (length (temp_files w))
                    (tf_seek (length (temp_files w)) 0
                      (fold (\<lambda>chunk. tf_write (length (temp_files w)) (force_bytes cfg chunk)) (chunks text)
                        (snd (temporary_file w)))))) of
        (Inl e, w2) \<Rightarrow> (Inl e, w2)
      | (Inr u, w2) \<Rightarrow> (Inr name, tf_close (length (temp_files w)) w2))"
  by (simp add: save_func_def object_params_def temporary_file_def Let_def split: prod.splits sum.splits)

lemma save_text_buffer:
  "map tf_closed (temp_files (snd (S3Storage_save cfg name (TextFile text) w)))
     = map tf_closed (temp_files w)
         @ [case fst (S3Storage_save cfg name (TextFile text) w) of Inl e \<Rightarrow> False | Inr v \<Rightarrow> True]"
proof -
  let ?h = "length (temp_files w)"
  let ?w1 = "snd (tf_read ?h (tf_seek ?h 0
               (fold (\<lambda>chunk. tf_write ?h (force_bytes cfg chunk)) (chunks text) (snd (temporary_file w)))))"
  let ?body = "fst (tf_read ?h (tf_seek ?h 0
               (fold (\<lambda>chunk. tf_write ?h (force_bytes cfg chunk)) (chunks text) (snd (temporary_file w)))))"
  let ?put = "put_object (AWS_S3_BUCKET_NAME cfg) (get_key_name name) ?body (content_type_for cfg name) ?w1"
  have c1: "map tf_closed (temp_files ?w1) = map tf_closed (temp_files w) @ [False]"
    by (simp add: temporary_file_def)
  have c2: "map tf_closed (temp_files (snd ?put)) = map tf_closed (temp_files w) @ [False]"
    using c1 by simp
  have len: "length (temp_files (snd ?put)) = Suc ?h"
    by (simp add: temporary_file_def)
  obtain r w2 where p: "?put = (r, w2)" by (cases ?put)
  from c2 len p have w2: "map tf_closed (temp_files w2) = map tf_closed (temp_files w) @ [False]"
    "length (temp_files w2) = Suc ?h" by simp_all
  show ?thesis
  proof (cases r)
    case (Inl e)
    with p w2 show ?thesis
      by (cases e) (simp_all add: S3Storage_save_def wrap_errors_def save_func_text)
  next
    case (Inr u)
    with p w2 show ?thesis
      by (simp add: S3Storage_save_def wrap_errors_def save_func_text tf_close_closed update_last_of_map)
  qed
qed

lemma save_text_fst:
  "fst (S3Storage_save cfg name (TextFile text) w)
     = (case fault w (PutObject (AWS_S3_BUCKET_NAME cfg) (get_key_name name)
                (fst (tf_read (length (temp_files w))
                    (tf_seek (length (temp_files w)) 0
                      (fold (\<lambda>chunk. tf_write (length (temp_files w)) (force_bytes cfg chunk)) (chunks text)
                        (snd (temporary_file w))))))
                (content_type_for cfg name)) of
          Some e \<Rightarrow> Inl (S3Error (error_message name (ClientError e ''PutObject'')))
        | None \<Rightarrow> Inr name)"
proof -
  let ?h = "length (temp_files w)"
  let ?w1 = "snd (tf_read ?h (tf_seek ?h 0
               (fold (\<lambda>chunk. tf_write ?h (force_bytes cfg chunk)) (chunks text) (snd (temporary_file w)))))"
  let ?body = "fst (tf_read ?h (tf_seek ?h 0
               (fold (\<lambda>chunk. tf_write ?h (force_bytes cfg chunk)) (chunks text) (snd (temporary_file w)))))"
  let ?put = "put_object (AWS_S3_BUCKET_NAME cfg) (get_key_name name) ?body (content_type_for cfg name) ?w1"
  have f: "fault ?w1 = fault w" by (simp add: temporary_file_def)
  obtain r w2 where p: "?put = (r, w2)" by (cases ?put)
  from put_object_fst [of "AWS_S3_BUCKET_NAME cfg" "get_key_name name" ?body "content_type_for cfg name" ?w1] p f
  have r: "r = (case fault w (PutObject (AWS_S3_BUCKET_NAME cfg) (get_key_name name) ?body (content_type_for cfg name)) of
          Some e \<Rightarrow> Inl (ClientError e ''PutObject'')
        | None \<Rightarrow> Inr ())" by simp
  show ?thesis
    by (simp add: S3Storage_save_def wrap_errors_def save_func_text p r split: option.splits)
qed

text \<open>
  C6 on a failing input: a text saved while the backend answers \<open>PutObject\<close> with an
  error. The save raises the storage error and the temporary buffer it created is still
  open; in the world where the upload succeeds the buffer is closed.
\<close>

theorem save_text_upload_failure_leaves_buffer_open:
  "fst (S3Storage_save sample_config ''notes.txt'' (TextFile ''hi'') upload_failure_world)
     = Inl (S3Error (error_message ''notes.txt''
              (ClientError (ErrorResponse ''500'' ''Internal Error'') ''PutObject'')))
   \<and> map tf_closed (temp_files (snd (S3Storage_save sample_config ''notes.txt'' (TextFile ''hi'')
                                        upload_failure_world))) = [False]
   \<and> fst (S3Storage_save sample_config ''notes.txt'' (TextFile ''hi'') empty_world) = Inr ''notes.txt''
   \<and> map tf_closed (temp_files (snd (S3Storage_save sample_config ''notes.txt'' (TextFile ''hi'')
                                        empty_world))) = [True]"
proof -
  have a: "fst (S3Storage_save sample_config ''notes.txt'' (TextFile ''hi'') upload_failure_world)
     = Inl (S3Error (error_message ''notes.txt''
              (ClientError (ErrorResponse ''500'' ''Internal Error'') ''PutObject'')))"
    by (simp add: save_text_fst upload_failure_world_def)
  have b: "fst (S3Storage_save sample_config ''notes.txt'' (TextFile ''hi'') empty_world) = Inr ''notes.txt''"
    by (simp add: save_text_fst empty_world_def)
  show ?thesis
    using a b
    by (simp add: save_text_buffer) (simp add: upload_failure_world_def empty_world_def)
qed

section \<open>Save, then open\<close>

lemma save_binary_ok:
  assumes "fault w (PutObject (AWS_S3_BUCKET_NAME cfg) (get_key_name P) B (content_type_for cfg P)) = None"
  shows "S3Storage_save cfg P (BinaryFile B pos) w
           = (Inr P,
              (send (PutObject (AWS_S3_BUCKET_NAME cfg) (get_key_name P) B (content_type_for cfg P)) w)
                \<lparr>objects :=
                   store_object (get_key_name P)
                     \<lparr>obj_body = B, obj_content_type = content_type_for cfg P, obj_last_modified = now w\<rparr>
                     (objects w)\<rparr>)"
  using assms
  by (simp add: S3Storage_save_def wrap_errors_def save_func_def object_params_def put_object_def Let_def)

lemma open_found:
  assumes "fault w (GetObject (AWS_S3_BUCKET_NAME cfg) (get_key_name P)) = None"
      and "map_of (objects w) (get_key_name P) = Some obj"
  shows "S3Storage_open cfg P ''rb'' w
           = (Inr \<lparr>s3file_file = length (temp_files w), s3file_name = P\<rparr>,
              tf_seek (length (temp_files w)) 0
                (tf_write (length (temp_files w)) (obj_body obj)
                  (snd (temporary_file (send (GetObject (AWS_S3_BUCKET_NAME cfg) (get_key_name P)) w)))))"
  using assms
  by (simp add: S3Storage_open_def wrap_errors_def open_func_def object_params_def get_object_def
        temporary_file_def send_def Let_def)

lemma read_fresh_buffer:
  "fst (tf_read (length (temp_files w)) (tf_seek (length (temp_files w)) 0
          (tf_write (length (temp_files w)) bs (snd (temporary_file w))))) = bs"
  by (simp add: tf_read_def tf_seek_def tf_write_def tf_update_def temporary_file_def)

text \<open>
  C1: for every path and every binary payload, the empty one included, and whatever the
  read position of the content handed in: when the backend answers the upload and the
  download, saving the payload under the path succeeds and opening the path afterwards
  gives a file whose content, read from the start, is the payload byte for byte.
\<close>

theorem save_then_open_round_trip:
  assumes "fault w (PutObject (AWS_S3_BUCKET_NAME cfg) (get_key_name P) B (content_type_for cfg P)) = None"
      and "fault w (GetObject (AWS_S3_BUCKET_NAME cfg) (get_key_name P)) = None"
  shows "fst (S3Storage_save cfg P (BinaryFile B pos) w) = Inr P
         \<and> (\<exists>f. fst (S3Storage_open cfg P ''rb'' (snd (S3Storage_save cfg P (BinaryFile B pos) w))) = Inr f
                \<and> s3file_name f = P
                \<and> read_file f (snd (S3Storage_open cfg P ''rb''
                                       (snd (S3Storage_save cfg P (BinaryFile B pos) w)))) = B)"
proof -
  let ?obj = "\<lparr>obj_body = B, obj_content_type = content_type_for cfg P, obj_last_modified = now w\<rparr>"
  let ?w1 = "(send (PutObject (AWS_S3_BUCKET_NAME cfg) (get_key_name P) B (content_type_for cfg P)) w)
                \<lparr>objects := store_object (get_key_name P) ?obj (objects w)\<rparr>"
  have s: "S3Storage_save cfg P (BinaryFile B pos) w = (Inr P, ?w1)"
    by (rule save_binary_ok [OF assms(1)])
  have f1: "fault ?w1 (GetObject (AWS_S3_BUCKET_NAME cfg) (get_key_name P)) = None"
    using assms(2) by (simp add: send_def)
  have m1: "map_of (objects ?w1) (get_key_name P) = Some ?obj"
    by (simp add: map_of_store_object)
  let ?w2 = "send (GetObject (AWS_S3_BUCKET_NAME cfg) (get_key_name P)) ?w1"
  have len: "length (temp_files ?w2) = length (temp_files ?w1)" by (simp add: send_def)
  have "fst (tf_read (length (temp_files ?w2)) (tf_seek (length (temp_files ?w2)) 0
          (tf_write (length (temp_files ?w2)) B (snd (temporary_file ?w2))))) = B"
    by (rule read_fresh_buffer)
  then have r: "fst (tf_read (length (temp_files ?w1)) (tf_seek (length (temp_files ?w1)) 0
          (tf_write (length (temp_files ?w1)) B (snd (temporary_file ?w2))))) = B"
    by (simp only: len)
  show ?thesis
    unfolding s fst_conv snd_conv open_found [OF f1 m1]
    using r by (simp add: read_file_def)
qed

theorem save_then_open_round_trip_witness:
  "fault empty_world
       (PutObject (AWS_S3_BUCKET_NAME sample_config) (get_key_name ''/docs/empty.bin'') []
          (content_type_for sample_config ''/docs/empty.bin'')) = None
   \<and> fault empty_world
       (GetObject (AWS_S3_BUCKET_NAME sample_config) (get_key_name ''/docs/empty.bin'')) = None
   \<and> fst (S3Storage_save sample_config ''/docs/empty.bin'' (BinaryFile [] 0) empty_world)
       = Inr ''/docs/empty.bin''
   \<and> (\<exists>f. fst (S3Storage_open sample_config ''/docs/empty.bin'' ''rb''
                  (snd (S3Storage_save sample_config ''/docs/empty.bin'' (BinaryFile [] 0) empty_world)))
              = Inr f
          \<and> s3file_name f = ''/docs/empty.bin''
          \<and> read_file f (snd (S3Storage_open sample_config ''/docs/empty.bin'' ''rb''
                  (snd (S3Storage_save sample_config ''/docs/empty.bin'' (BinaryFile [] 0) empty_world))))
              = [])
   \<and> fault two_file_world
       (PutObject (AWS_S3_BUCKET_NAME sample_config) (get_key_name ''a.txt'') [0, 255, 10]
          (content_type_for sample_config ''a.txt'')) = None
   \<and> fault two_file_world
       (GetObject (AWS_S3_BUCKET_NAME sample_config) (get_key_name ''a.txt'')) = None
   \<and> (\<exists>f. fst (S3Storage_open sample_config ''a.txt'' ''rb''
                  (snd (S3Storage_save sample_config ''a.txt'' (BinaryFile [0, 255, 10] 2) two_file_world)))
              = Inr f
          \<and> read_file f (snd (S3Storage_open sample_config ''a.txt'' ''rb''
                  (snd (S3Storage_save sample_config ''a.txt'' (BinaryFile [0, 255, 10] 2) two_file_world))))
              = [0, 255, 10])"
proof -
  have a: "fault empty_world
       (PutObject (AWS_S3_BUCKET_NAME sample_config) (get_key_name ''/docs/empty.bin'') []
          (content_type_for sample_config ''/docs/empty.bin'')) = None"
    by (simp add: empty_world_def)
  have b: "fault empty_world
       (GetObject (AWS_S3_BUCKET_NAME sample_config) (get_key_name ''/docs/empty.bin'')) = None"
    by (simp add: empty_world_def)
  have c: "fault two_file_world
       (PutObject (AWS_S3_BUCKET_NAME sample_config) (get_key_name ''a.txt'') [0, 255, 10]
          (content_type_for sample_config ''a.txt'')) = None"
    by (simp add: two_file_world_def)
  have d: "fault two_file_world
       (GetObject (AWS_S3_BUCKET_NAME sample_config) (get_key_name ''a.txt'')) = None"
    by (simp add: two_file_world_def)
  from save_then_open_round_trip [OF a b, of 0] save_then_open_round_trip [OF c d, of 2] a b c d
  show ?thesis by blast
qed

section \<open>Backend failures\<close>







































section \<open>Splitting, joining and relative paths\<close>

lemma split_on_not_Nil [simp]: "split_on c s \<noteq> []"
  by (induction s) (auto split: list.splits)

lemma split_on_no_sep: "c \<notin> set s \<Longrightarrow> split_on c s = [s]"
  by (induction s) auto

lemma split_on_pieces: "piece \<in> set (split_on c s) \<Longrightarrow> c \<notin> set piece"
proof (induction s arbitrary: piece)
  case Nil
  then show ?case by simp
next
  case (Cons a s)
  show ?case
  proof (cases "a = c")
    case True
    with Cons show ?thesis by auto
  next
    case False
    obtain p ps where sp: "split_on c s = p # ps" by (cases "split_on c s") auto
    with Cons.prems False have "piece = a # p \<or> piece \<in> set ps" by auto
    then show ?thesis
    proof
      assume "piece = a # p"
      moreover have "c \<notin> set p" using Cons.IH [of p] sp by simp
      ultimately show ?thesis using False by auto
    next
      assume "piece \<in> set ps"
      then show ?thesis using Cons.IH [of piece] sp by simp
    qed
  qed
qed

lemma split_on_append_sep: "split_on c (xs @ c # ys) = split_on c xs @ split_on c ys"
proof (induction xs)
  case Nil
  show ?case by simp
next
  case (Cons a xs)
  obtain p ps where sp: "split_on c xs = p # ps" by (cases "split_on c xs") auto
  with Cons show ?case by auto
qed

lemma split_on_leading: "split_on c (replicate n c @ s) = replicate n [] @ split_on c s"
  by (induction n) auto

lemma split_join:
  assumes "\<forall>x\<in>set comps. x \<noteq> [] \<and> CHR ''/'' \<notin> set x"
  shows "filter (\<lambda>x. x \<noteq> []) (split_on CHR ''/'' (join_with ''/'' comps)) = comps"
  using assms
proof (induction comps)
  case Nil
  show ?case by simp
next
  case (Cons x rest)
  show ?case
  proof (cases rest)
    case Nil
    with Cons.prems show ?thesis by (simp add: split_on_no_sep)
  next
    case (Cons y ys)
    have "split_on CHR ''/'' (x @ CHR ''/'' # join_with ''/'' rest)
            = split_on CHR ''/'' x @ split_on CHR ''/'' (join_with ''/'' rest)"
      by (rule split_on_append_sep)
    with Cons Cons.prems Cons.IH show ?thesis by (simp add: split_on_no_sep)
  qed
qed

lemma endswith_sep: "endswith s ''/'' = (\<exists>q. s = q @ ''/'')"
proof
  assume "endswith s ''/''"
  then have "s \<noteq> []" "drop (length s - 1) s = ''/''" by (auto simp: endswith_def)
  then have "s = take (length s - 1) s @ ''/''"
    by (metis append_take_drop_id)
  then show "\<exists>q. s = q @ ''/''" ..
next
  assume "\<exists>q. s = q @ ''/''"
  then show "endswith s ''/''" by (auto simp: endswith_def)
qed

lemma norm_step_empty [simp]: "norm_step a acc [] = acc"
  by (simp add: norm_step_def)

lemma norm_step_clean:
  assumes "\<forall>x\<in>set acc. x \<noteq> [] \<and> CHR ''/'' \<notin> set x" and "CHR ''/'' \<notin> set c"
  shows "\<forall>x\<in>set (norm_step a acc c). x \<noteq> [] \<and> CHR ''/'' \<notin> set x"
  using assms by (auto simp: norm_step_def dest: in_set_butlastD)

lemma foldl_norm_step_clean:
  assumes "\<forall>x\<in>set acc. x \<noteq> [] \<and> CHR ''/'' \<notin> set x" and "\<forall>c\<in>set cs. CHR ''/'' \<notin> set c"
  shows "\<forall>x\<in>set (foldl (norm_step a) acc cs). x \<noteq> [] \<and> CHR ''/'' \<notin> set x"
  using assms
proof (induction cs arbitrary: acc)
  case Nil
  then show ?case by simp
next
  case (Cons c cs)
  from Cons.prems(2) have c: "CHR ''/'' \<notin> set c" and cs: "\<forall>c\<in>set cs. CHR ''/'' \<notin> set c"
    by simp_all
  have step: "\<forall>x\<in>set (norm_step a acc c). x \<noteq> [] \<and> CHR ''/'' \<notin> set x"
    by (rule norm_step_clean [OF Cons.prems(1) c])
  from Cons.IH [OF step cs] show ?case by simp
qed

lemma norm_step_plain:
  "c \<noteq> ''.'' \<Longrightarrow> c \<noteq> ''..'' \<Longrightarrow> norm_step a acc c = (if c = [] then acc else acc @ [c])"
  by (simp add: norm_step_def)

lemma foldl_norm_step_plain:
  assumes "\<forall>c\<in>set cs. c \<noteq> ''.'' \<and> c \<noteq> ''..''"
  shows "foldl (norm_step a) acc cs = acc @ filter (\<lambda>c. c \<noteq> []) cs"
  using assms
proof (induction cs arbitrary: acc)
  case Nil
  show ?case by simp
next
  case (Cons c cs)
  from Cons.prems have c: "c \<noteq> ''.''" "c \<noteq> ''..''" and cs: "\<forall>c\<in>set cs. c \<noteq> ''.'' \<and> c \<noteq> ''..''"
    by simp_all
  show ?case
    by (simp only: foldl_Cons norm_step_plain [OF c] Cons.IH [OF cs]) simp
qed

lemma normpath_absolute:
  assumes "startswith s ''/''"
  shows "filter (\<lambda>x. x \<noteq> []) (split_on CHR ''/'' (normpath s))
           = foldl (norm_step True) [] (split_on CHR ''/'' s)"
proof -
  let ?C = "foldl (norm_step True) [] (split_on CHR ''/'' s)"
  from assms have s: "s \<noteq> []" by (auto simp: startswith_def)
  from assms have k: "initial_slashes s \<noteq> 0" by (simp add: initial_slashes_def)
  then have pos: "replicate (initial_slashes s) CHR ''/'' \<noteq> []" by simp
  have n: "normpath s = replicate (initial_slashes s) CHR ''/'' @ join_with ''/'' ?C"
    using s k pos by (simp add: normpath_def Let_def)
  have clean: "\<forall>x\<in>set ?C. x \<noteq> [] \<and> CHR ''/'' \<notin> set x"
    by (rule foldl_norm_step_clean) (auto dest: split_on_pieces)
  have "filter (\<lambda>x. x \<noteq> []) (split_on CHR ''/'' (normpath s))
          = filter (\<lambda>x. x \<noteq> []) (split_on CHR ''/'' (join_with ''/'' ?C))"
    by (simp add: n split_on_leading)
  also have "\<dots> = ?C" by (rule split_join [OF clean])
  finally show ?thesis .
qed

lemma abspath_relative:
  assumes "startswith cwd ''/''" and "\<not> startswith x ''/''"
  shows "filter (\<lambda>c. c \<noteq> []) (split_on CHR ''/'' (abspath cwd x))
           = foldl (norm_step True) (foldl (norm_step True) [] (split_on CHR ''/'' cwd))
               (split_on CHR ''/'' x)"
proof -
  from assms(1) have cwd: "cwd \<noteq> []" by (auto simp: startswith_def)
  show ?thesis
  proof (cases "endswith cwd ''/''")
    case True
    then obtain q where q: "cwd = q @ ''/''" by (auto simp: endswith_sep)
    have j: "path_join cwd x = q @ CHR ''/'' # x"
      using assms(2) True q by (simp add: path_join_def)
    have a: "startswith (q @ CHR ''/'' # x) ''/''"
      using assms(1) q by (cases q) (auto simp: startswith_def)
    have "filter (\<lambda>c. c \<noteq> []) (split_on CHR ''/'' (abspath cwd x))
            = foldl (norm_step True) [] (split_on CHR ''/'' (q @ CHR ''/'' # x))"
      using assms(2) by (simp add: abspath_def isabs_def j normpath_absolute [OF a])
    also have "\<dots> = foldl (norm_step True) (foldl (norm_step True) [] (split_on CHR ''/'' q))
                        (split_on CHR ''/'' x)"
      by (simp add: split_on_append_sep)
    also have "foldl (norm_step True) [] (split_on CHR ''/'' q)
                 = foldl (norm_step True) [] (split_on CHR ''/'' cwd)"
      using split_on_append_sep [of "CHR ''/''" q "[]"] by (simp add: q)
    finally show ?thesis .
  next
    case False
    have j: "path_join cwd x = cwd @ CHR ''/'' # x"
      using assms(2) False cwd by (simp add: path_join_def)
    have a: "startswith (cwd @ CHR ''/'' # x) ''/''"
      using assms(1) by (cases cwd) (auto simp: startswith_def)
    have "filter (\<lambda>c. c \<noteq> []) (split_on CHR ''/'' (abspath cwd x))
            = foldl (norm_step True) [] (split_on CHR ''/'' (cwd @ CHR ''/'' # x))"
      using assms(2) by (simp add: abspath_def isabs_def j normpath_absolute [OF a])
    also have "\<dots> = foldl (norm_step True) (foldl (norm_step True) [] (split_on CHR ''/'' cwd))
                        (split_on CHR ''/'' x)"
      by (simp add: split_on_append_sep)
    finally show ?thesis .
  qed
qed

lemma common_len_append: "common_len xs (xs @ ys) = length xs"
  by (induction xs) simp_all

lemma common_len_same: "common_len xs xs = length xs"
  using common_len_append [of xs "[]"] by simp

lemma last_not_member: "x \<noteq> [] \<Longrightarrow> c \<notin> set x \<Longrightarrow> last x \<noteq> c"
  by (induction x) auto

lemma last_not_sep_endswith: "acc \<noteq> [] \<Longrightarrow> last acc \<noteq> CHR ''/'' \<Longrightarrow> \<not> endswith acc ''/''"
  by (auto simp: endswith_sep)

lemma foldl_path_join:
  assumes "acc \<noteq> []" and "last acc \<noteq> CHR ''/''"
      and "\<forall>y\<in>set ys. y \<noteq> [] \<and> CHR ''/'' \<notin> set y"
  shows "foldl path_join acc ys = acc @ concat (map (\<lambda>y. CHR ''/'' # y) ys)"
  using assms
proof (induction ys arbitrary: acc)
  case Nil
  show ?case by simp
next
  case (Cons y ys)
  have y: "y \<noteq> []" "CHR ''/'' \<notin> set y" using Cons.prems(3) by auto
  then have "\<not> startswith y ''/''" by (cases y) (auto simp: startswith_def)
  then have j: "path_join acc y = acc @ CHR ''/'' # y"
    using Cons.prems(1,2) by (simp add: path_join_def last_not_sep_endswith)
  have l: "last (acc @ CHR ''/'' # y) \<noteq> CHR ''/''"
    using last_not_member [OF y] y(1) by simp
  have "foldl path_join (acc @ CHR ''/'' # y) ys
          = (acc @ CHR ''/'' # y) @ concat (map (\<lambda>y. CHR ''/'' # y) ys)"
    using Cons.prems(3) l by (intro Cons.IH) auto
  then show ?case by (simp add: j)
qed

lemma join_with_concat:
  "join_with ''/'' (x # ys) = x @ concat (map (\<lambda>y. CHR ''/'' # y) ys)"
  by (induction ys arbitrary: x) simp_all

lemma relpath_under_prefix:
  assumes cwd: "startswith cwd ''/''"
      and rel: "\<not> startswith (p @ rest) ''/''"
      and dir: "p = [] \<or> endswith p ''/''"
      and nonempty: "p @ rest \<noteq> []"
      and plain: "\<forall>c\<in>set (split_on CHR ''/'' rest). c \<noteq> ''.'' \<and> c \<noteq> ''..''"
  shows "relpath cwd (p @ rest) p
           = Inr (if filter (\<lambda>c. c \<noteq> []) (split_on CHR ''/'' rest) = [] then ''.''
                  else join_with ''/'' (filter (\<lambda>c. c \<noteq> []) (split_on CHR ''/'' rest)))"
proof -
  let ?N = "foldl (norm_step True) [] (split_on CHR ''/'' cwd)"
  let ?R = "filter (\<lambda>c. c \<noteq> []) (split_on CHR ''/'' rest)"
  from rel have relp: "\<not> startswith p ''/''"
    by (cases p) (auto simp: startswith_def)
  obtain S where
    start: "foldl (norm_step True) ?N (split_on CHR ''/'' p) = S" and
    path: "foldl (norm_step True) ?N (split_on CHR ''/'' (p @ rest))
             = foldl (norm_step True) S (split_on CHR ''/'' rest)"
  proof (cases "p = []")
    case True
    show ?thesis by (rule that [of ?N]) (simp_all add: True)
  next
    case False
    with dir obtain k where k: "p = k @ ''/''" by (auto simp: endswith_sep)
    show ?thesis
    proof (rule that [of "foldl (norm_step True) ?N (split_on CHR ''/'' k)"])
      show "foldl (norm_step True) ?N (split_on CHR ''/'' p)
              = foldl (norm_step True) ?N (split_on CHR ''/'' k)"
        using split_on_append_sep [of "CHR ''/''" k "[]"] by (simp add: k)
      show "foldl (norm_step True) ?N (split_on CHR ''/'' (p @ rest))
              = foldl (norm_step True) (foldl (norm_step True) ?N (split_on CHR ''/'' k))
                  (split_on CHR ''/'' rest)"
        by (simp add: k split_on_append_sep)
    qed
  qed
  have sl: "filter (\<lambda>c. c \<noteq> []) (split_on CHR ''/'' (abspath cwd p)) = S"
    using abspath_relative [OF cwd relp] start by simp
  have pl: "filter (\<lambda>c. c \<noteq> []) (split_on CHR ''/'' (abspath cwd (p @ rest))) = S @ ?R"
    using abspath_relative [OF cwd rel] path foldl_norm_step_plain [OF plain, of True S] by simp
  have clean: "\<forall>y\<in>set ?R. y \<noteq> [] \<and> CHR ''/'' \<notin> set y"
    by (auto dest: split_on_pieces)
  show ?thesis
  proof (cases ?R)
    case Nil
    then show ?thesis
      using nonempty by (simp add: relpath_def Let_def sl pl common_len_same)
  next
    case (Cons x ys)
    with clean have x: "x \<noteq> []" "CHR ''/'' \<notin> set x" and ys: "\<forall>y\<in>set ys. y \<noteq> [] \<and> CHR ''/'' \<notin> set y"
      by simp_all
    from x have lx: "last x \<noteq> CHR ''/''" by (rule last_not_member)
    have "foldl path_join x ys = join_with ''/'' (x # ys)"
      using foldl_path_join [OF x(1) lx ys] by (simp add: join_with_concat)
    then show ?thesis
      using nonempty Cons by (simp add: relpath_def Let_def sl pl common_len_append)
  qed
qed

section \<open>Listing a directory\<close>

lemma append_relative_iff:
  "(append_relative cwd p es acc = Inr out)
     = (\<exists>rs. out = acc @ rs \<and> list_all2 (\<lambda>e r. relpath cwd e p = Inr r) es rs)"
proof (induction es arbitrary: acc)
  case Nil
  show ?case by auto
next
  case (Cons e es)
  show ?case
  proof (cases "relpath cwd e p")
    case (Inl x)
    then show ?thesis by (auto simp: list_all2_Cons1)
  next
    case (Inr r)
    have "(append_relative cwd p (e # es) acc = Inr out)
            = (\<exists>rs. out = (acc @ [r]) @ rs \<and> list_all2 (\<lambda>e r. relpath cwd e p = Inr r) es rs)"
      by (simp add: Inr Cons.IH)
    also have "\<dots> = (\<exists>rs. out = acc @ rs \<and> list_all2 (\<lambda>e r. relpath cwd e p = Inr r) (e # es) rs)"
      by (auto simp: list_all2_Cons1 Inr)
    finally show ?thesis .
  qed
qed

lemma listdir_pages_iff:
  "(fst (listdir_pages req cwd p pgs files dirs w) = Inr (ds, fs))
     = (\<exists>fr dr. fs = files @ fr \<and> ds = dirs @ dr
          \<and> list_all2 (\<lambda>e r. relpath cwd e p = Inr r) (concat (map (\<lambda>pg. page_get (Contents pg)) pgs)) fr
          \<and> list_all2 (\<lambda>e r. relpath cwd e p = Inr r) (concat (map (\<lambda>pg. page_get (CommonPrefixes pg)) pgs)) dr)"
proof (induction pgs arbitrary: files dirs w)
  case Nil
  show ?case by auto
next
  case (Cons pg pgs)
  let ?R = "\<lambda>e r. relpath cwd e p = Inr r"
  show ?case
  proof (cases "append_relative cwd p (page_get (Contents pg)) files")
    case (Inl x)
    then have no: "\<not> (\<exists>rs. list_all2 ?R (page_get (Contents pg)) rs)"
      using append_relative_iff [of cwd p "page_get (Contents pg)" files] by auto
    have "\<not> (\<exists>fr. list_all2 ?R (page_get (Contents pg) @ concat (map (\<lambda>pg. page_get (Contents pg)) pgs)) fr)"
      using no by (auto simp: list_all2_append1)
    then show ?thesis using Inl by auto
  next
    case files': (Inr files')
    then obtain f1 where f1: "files' = files @ f1" "list_all2 ?R (page_get (Contents pg)) f1"
      using append_relative_iff [of cwd p "page_get (Contents pg)" files files'] by auto
    show ?thesis
    proof (cases "append_relative cwd p (page_get (CommonPrefixes pg)) dirs")
      case (Inl x)
      then have no: "\<not> (\<exists>rs. list_all2 ?R (page_get (CommonPrefixes pg)) rs)"
        using append_relative_iff [of cwd p "page_get (CommonPrefixes pg)" dirs] by auto
      have "\<not> (\<exists>dr. list_all2 ?R (page_get (CommonPrefixes pg)
                   @ concat (map (\<lambda>pg. page_get (CommonPrefixes pg)) pgs)) dr)"
        using no by (auto simp: list_all2_append1)
      then show ?thesis using Inl files' by auto
    next
      case dirs': (Inr dirs')
      then obtain d1 where d1: "dirs' = dirs @ d1" "list_all2 ?R (page_get (CommonPrefixes pg)) d1"
        using append_relative_iff [of cwd p "page_get (CommonPrefixes pg)" dirs dirs'] by auto
      have det: "list_all2 ?R es r1 \<Longrightarrow> list_all2 ?R es r2 \<Longrightarrow> r1 = r2" for es r1 r2
      proof (induction es arbitrary: r1 r2)
        case Nil
        then show ?case by simp
      next
        case (Cons e es)
        then show ?case by (auto simp: list_all2_Cons1)
      qed
      have step: "fst (listdir_pages req cwd p (pg # pgs) files dirs w)
                    = fst (listdir_pages req cwd p pgs files' dirs' (send req w))"
        by (simp add: files' dirs')
      show ?thesis
      proof
        assume "fst (listdir_pages req cwd p (pg # pgs) files dirs w) = Inr (ds, fs)"
        then obtain fr dr where
          r: "fs = files' @ fr" "ds = dirs' @ dr"
             "list_all2 ?R (concat (map (\<lambda>pg. page_get (Contents pg)) pgs)) fr"
             "list_all2 ?R (concat (map (\<lambda>pg. page_get (CommonPrefixes pg)) pgs)) dr"
          unfolding step Cons.IH by blast
        have "fs = files @ (f1 @ fr)" "ds = dirs @ (d1 @ dr)" using r f1 d1 by simp_all
        moreover have "list_all2 ?R (concat (map (\<lambda>pg. page_get (Contents pg)) (pg # pgs))) (f1 @ fr)"
          using f1(2) r(3) by (simp add: list_all2_appendI)
        moreover have "list_all2 ?R (concat (map (\<lambda>pg. page_get (CommonPrefixes pg)) (pg # pgs))) (d1 @ dr)"
          using d1(2) r(4) by (simp add: list_all2_appendI)
        ultimately show "\<exists>fr dr. fs = files @ fr \<and> ds = dirs @ dr
          \<and> list_all2 ?R (concat (map (\<lambda>pg. page_get (Contents pg)) (pg # pgs))) fr
          \<and> list_all2 ?R (concat (map (\<lambda>pg. page_get (CommonPrefixes pg)) (pg # pgs))) dr"
          by blast
      next
        assume "\<exists>fr dr. fs = files @ fr \<and> ds = dirs @ dr
          \<and> list_all2 ?R (concat (map (\<lambda>pg. page_get (Contents pg)) (pg # pgs))) fr
          \<and> list_all2 ?R (concat (map (\<lambda>pg. page_get (CommonPrefixes pg)) (pg # pgs))) dr"
        then obtain fr dr where
          a: "fs = files @ fr" "ds = dirs @ dr"
             "list_all2 ?R (page_get (Contents pg) @ concat (map (\<lambda>pg. page_get (Contents pg)) pgs)) fr"
             "list_all2 ?R (page_get (CommonPrefixes pg) @ concat (map (\<lambda>pg. page_get (CommonPrefixes pg)) pgs)) dr"
          by auto
        from a(3) obtain fa fb where fab: "fr = fa @ fb" "list_all2 ?R (page_get (Contents pg)) fa"
          "list_all2 ?R (concat (map (\<lambda>pg. page_get (Contents pg)) pgs)) fb"
          by (auto simp: list_all2_append1)
        from a(4) obtain da db where dab: "dr = da @ db" "list_all2 ?R (page_get (CommonPrefixes pg)) da"
          "list_all2 ?R (concat (map (\<lambda>pg. page_get (CommonPrefixes pg)) pgs)) db"
          by (auto simp: list_all2_append1)
        have "fa = f1" by (rule det [OF fab(2) f1(2)])
        moreover have "da = d1" by (rule det [OF dab(2) d1(2)])
        ultimately have "fs = files' @ fb" "ds = dirs' @ db" using a fab dab f1 d1 by simp_all
        with fab(3) dab(3) have "fst (listdir_pages req cwd p pgs files' dirs' (send req w)) = Inr (ds, fs)"
          unfolding Cons.IH by blast
        then show "fst (listdir_pages req cwd p (pg # pgs) files dirs w) = Inr (ds, fs)"
          by (simp only: step)
      qed
    qed
  qed
qed

lemma page_get_nonempty [simp]: "page_get (nonempty xs) = xs"
  by (simp add: page_get_def nonempty_def)

lemma entry_keys_append: "entry_keys (xs @ ys) = entry_keys xs @ entry_keys ys"
  by (induction xs rule: entry_keys.induct) simp_all

lemma entry_prefixes_append: "entry_prefixes (xs @ ys) = entry_prefixes xs @ entry_prefixes ys"
  by (induction xs rule: entry_prefixes.induct) simp_all

lemma entry_keys_concat: "concat (map entry_keys cs) = entry_keys (concat cs)"
  by (induction cs) (simp_all add: entry_keys_append)

lemma entry_prefixes_concat: "concat (map entry_prefixes cs) = entry_prefixes (concat cs)"
  by (induction cs) (simp_all add: entry_prefixes_append)

lemma concat_chunks_of: "0 < n \<Longrightarrow> concat (chunks_of n xs) = xs"
proof (induction n xs rule: chunks_of.induct)
  case (1 n xs)
  show ?case
  proof (cases "xs = []")
    case True
    then show ?thesis by (subst chunks_of.simps) simp
  next
    case False
    with 1 have "concat (chunks_of n (drop n xs)) = drop n xs" by simp
    with False 1(2) show ?thesis by (subst chunks_of.simps) simp
  qed
qed

lemma chunks_of_not_Nil: "0 < n \<Longrightarrow> xs \<noteq> [] \<Longrightarrow> chunks_of n xs \<noteq> []"
  by (subst chunks_of.simps) simp

lemma list_pages_not_Nil: "list_pages d p objs \<noteq> []"
  by (simp add: list_pages_def MaxKeys_def chunks_of_not_Nil)

lemma list_pages_contents:
  "concat (map (\<lambda>pg. page_get (Contents pg)) (list_pages d p objs))
     = entry_keys (list_entries d p (map fst objs))"
proof (cases "list_entries d p (map fst objs) = []")
  case True
  then show ?thesis by (simp add: list_pages_def to_page_def)
next
  case False
  have "concat (map (\<lambda>pg. page_get (Contents pg)) (map to_page cs)) = entry_keys (concat cs)" for cs
    by (simp add: to_page_def comp_def entry_keys_concat)
  with False show ?thesis by (simp add: list_pages_def concat_chunks_of MaxKeys_def)
qed

lemma list_pages_prefixes:
  "concat (map (\<lambda>pg. page_get (CommonPrefixes pg)) (list_pages d p objs))
     = entry_prefixes (list_entries d p (map fst objs))"
proof (cases "list_entries d p (map fst objs) = []")
  case True
  then show ?thesis by (simp add: list_pages_def to_page_def)
next
  case False
  have "concat (map (\<lambda>pg. page_get (CommonPrefixes pg)) (map to_page cs)) = entry_prefixes (concat cs)" for cs
    by (simp add: to_page_def comp_def entry_prefixes_concat)
  with False show ?thesis by (simp add: list_pages_def concat_chunks_of MaxKeys_def)
qed

lemma send_calls: "calls (send r w) = calls w @ [r]"
  by (simp add: send_def)

lemma listdir_pages_calls:
  "pgs \<noteq> [] \<Longrightarrow>
     \<exists>n. 0 < n \<and> calls (snd (listdir_pages req cwd p pgs files dirs w)) = calls w @ replicate n req"
proof (induction pgs arbitrary: files dirs w)
  case Nil
  then show ?case by simp
next
  case (Cons pg pgs)
  have one: "calls (send req w) = calls w @ replicate (Suc 0) req" by (simp add: send_calls)
  show ?case
  proof (cases "append_relative cwd p (page_get (Contents pg)) files")
    case (Inl x)
    with one show ?thesis by (intro exI [of _ "Suc 0"]) simp
  next
    case fs: (Inr files')
    show ?thesis
    proof (cases "append_relative cwd p (page_get (CommonPrefixes pg)) dirs")
      case (Inl x)
      with fs one show ?thesis by (intro exI [of _ "Suc 0"]) simp
    next
      case ds: (Inr dirs')
      show ?thesis
      proof (cases "pgs = []")
        case True
        with fs ds one show ?thesis by (intro exI [of _ "Suc 0"]) simp
      next
        case False
        from Cons.IH [OF False, of files' dirs' "send req w"] obtain n where
          n: "calls (snd (listdir_pages req cwd p pgs files' dirs' (send req w)))
                = calls (send req w) @ replicate n req"
          by blast
        have "calls w @ [req] @ replicate n req = calls w @ replicate (Suc n) req" by simp
        with n fs ds show ?thesis
          by (intro exI [of _ "Suc n"]) (simp add: send_calls)
      qed
    qed
  qed
qed

lemma listdir_calls:
  "\<exists>n. 0 < n \<and> calls (snd (listdir cfg path w))
          = calls w @ replicate n (ListObjects (AWS_S3_BUCKET_NAME cfg) (Some (listdir_prefix path)) (Some ''/''))"
proof (cases "fault w (ListObjects (AWS_S3_BUCKET_NAME cfg) (Some (listdir_prefix path)) (Some ''/''))")
  case None
  then show ?thesis
    using listdir_pages_calls [OF list_pages_not_Nil]
    by (simp add: listdir_def paginate_def)
next
  case (Some e)
  then show ?thesis
    by (intro exI [of _ "Suc 0"]) (simp add: listdir_def paginate_def send_calls)
qed

lemma listdir_iff:
  assumes "fault w (ListObjects (AWS_S3_BUCKET_NAME cfg) (Some (listdir_prefix path)) (Some ''/'')) = None"
  shows "(fst (listdir cfg path w) = Inr (dirs, files))
           = (list_all2 (\<lambda>e r. relpath (getcwd cfg) e (listdir_prefix path) = Inr r)
                (entry_prefixes (list_entries CHR ''/'' (listdir_prefix path) (map fst (objects w)))) dirs
              \<and> list_all2 (\<lambda>e r. relpath (getcwd cfg) e (listdir_prefix path) = Inr r)
                (entry_keys (list_entries CHR ''/'' (listdir_prefix path) (map fst (objects w)))) files)"
  using assms
  by (auto simp: listdir_def paginate_def listdir_pages_iff list_pages_contents list_pages_prefixes)

lemma listdir_fault:
  assumes "fault w (ListObjects (AWS_S3_BUCKET_NAME cfg) (Some (listdir_prefix path)) (Some ''/'')) = Some e"
  shows "fst (listdir cfg path w) = Inl (ClientError e ''ListObjects'')"
  using assms by (simp add: listdir_def paginate_def)

lemma group_key_startswith:
  "startswith k p \<Longrightarrow> group_key d p k = KeyEntry e \<Longrightarrow> startswith e p"
  "group_key d p k = PrefixEntry e \<Longrightarrow> startswith e p"
  by (auto simp: group_key_def startswith_def split: if_splits)

lemma entry_keys_set: "e \<in> set (entry_keys es) = (KeyEntry e \<in> set es)"
  by (induction es rule: entry_keys.induct) auto

lemma entry_prefixes_set: "e \<in> set (entry_prefixes es) = (PrefixEntry e \<in> set es)"
  by (induction es rule: entry_prefixes.induct) auto

lemma list_entries_scoped:
  "e \<in> set (entry_keys (list_entries d p keys)) \<union> set (entry_prefixes (list_entries d p keys))
     \<Longrightarrow> startswith e p"
  by (auto simp: entry_keys_set entry_prefixes_set list_entries_def
           dest: group_key_startswith(1) [OF _ sym] group_key_startswith(2) [OF sym])

lemma listdir_prefix_root: "listdir_prefix ''.'' = []" "listdir_prefix ''/.'' = []"
  by (simp_all add: listdir_prefix_def get_key_name_def startswith_def)

lemma listdir_same_prefix:
  assumes "listdir_prefix p1 = listdir_prefix p2"
  shows "listdir cfg p1 w = listdir cfg p2 w"
proof -
  have "listdir cfg p w
          = (\<lambda>x. case paginate (AWS_S3_BUCKET_NAME cfg) CHR ''/'' x w of
                   Inl e \<Rightarrow> (Inl e, send (ListObjects (AWS_S3_BUCKET_NAME cfg) (Some x) (Some ''/'')) w)
                 | Inr pages \<Rightarrow>
                     listdir_pages (ListObjects (AWS_S3_BUCKET_NAME cfg) (Some x) (Some ''/''))
                       (getcwd cfg) x pages [] [] w) (listdir_prefix p)" for p
    by (simp add: listdir_def)
  then show ?thesis by (simp only: assms)
qed

lemma listdir_root_example:
  assumes "startswith (getcwd cfg) ''/''"
      and "map fst (objects w) = [''a.txt'', ''b/c.txt'']"
      and "fault w (ListObjects (AWS_S3_BUCKET_NAME cfg) (Some []) (Some ''/'')) = None"
  shows "fst (listdir cfg ''.'' w) = Inr ([''b''], [''a.txt''])"
proof -
  have es: "list_entries CHR ''/'' [] [''a.txt'', ''b/c.txt''] = [KeyEntry ''a.txt'', PrefixEntry ''b/'']"
    by (simp add: list_entries_def group_key_def startswith_def)
  have r1: "relpath (getcwd cfg) ''a.txt'' [] = Inr ''a.txt''"
    using relpath_under_prefix [OF assms(1), of "[]" "''a.txt''"] by (simp add: startswith_def)
  have r2: "relpath (getcwd cfg) ''b/'' [] = Inr ''b''"
    using relpath_under_prefix [OF assms(1), of "[]" "''b/''"] by (simp add: startswith_def)
  have f: "fault w (ListObjects (AWS_S3_BUCKET_NAME cfg) (Some (listdir_prefix ''.'')) (Some ''/'')) = None"
    using assms(3) by (simp add: listdir_prefix_root)
  show ?thesis
    by (simp add: listdir_iff [OF f] listdir_prefix_root assms(2) es r1 r2)
qed

text \<open>
  C8, amended: \<open>listdir\<close> first maps the path to its key. The key \<open>.\<close> (the paths
  \<open>.\<close> and \<open>/.\<close>) stands for the bucket root, the empty prefix; any other key gives
  the prefix that is the key with a trailing separator. It sends a paginated listing,
  grouped by the delimiter \<open>/\<close> and scoped to that prefix, and nothing else. When the
  listing is answered it returns the pair (directories, files) exactly when the
  directories are the common prefixes of the listing and the files its keys, each made
  relative to the prefix by \<open>posixpath.relpath\<close>; every such entry starts with the
  prefix, and an entry whose remainder after the prefix has no \<open>.\<close> or \<open>..\<close> component is
  made relative to that remainder (without its trailing separator). In particular, in a
  process whose working directory is absolute, \<open>listdir(".")\<close> on a bucket that holds
  exactly the keys \<open>a.txt\<close> and \<open>b/c.txt\<close> returns the directories \<open>b\<close> and the files
  \<open>a.txt\<close>.
\<close>

theorem listdir_lists_prefix:
  "listdir_prefix ''.'' = []
   \<and> (get_key_name path = ''.'' \<longrightarrow> listdir_prefix path = [])
   \<and> (get_key_name path \<noteq> ''.''
         \<longrightarrow> listdir_prefix path = get_key_name path @ ''/'' \<and> endswith (listdir_prefix path) ''/'')
   \<and> (\<exists>n. 0 < n
          \<and> calls (snd (listdir cfg path w))
              = calls w @ replicate n (ListObjects (AWS_S3_BUCKET_NAME cfg)
                                         (Some (listdir_prefix path)) (Some ''/'')))
   \<and> (fault w (ListObjects (AWS_S3_BUCKET_NAME cfg) (Some (listdir_prefix path)) (Some ''/'')) = None
         \<longrightarrow> (\<forall>dirs files.
                (fst (listdir cfg path w) = Inr (dirs, files))
                  = (list_all2 (\<lambda>e r. relpath (getcwd cfg) e (listdir_prefix path) = Inr r)
                       (entry_prefixes (list_entries CHR ''/'' (listdir_prefix path) (map fst (objects w))))
                       dirs
                     \<and> list_all2 (\<lambda>e r. relpath (getcwd cfg) e (listdir_prefix path) = Inr r)
                       (entry_keys (list_entries CHR ''/'' (listdir_prefix path) (map fst (objects w))))
                       files)))
   \<and> (\<forall>e\<in>set (entry_keys (list_entries CHR ''/'' (listdir_prefix path) (map fst (objects w))))
           \<union> set (entry_prefixes (list_entries CHR ''/'' (listdir_prefix path) (map fst (objects w)))).
         startswith e (listdir_prefix path))
   \<and> (\<forall>rest.
         startswith (getcwd cfg) ''/''
         \<and> \<not> startswith (listdir_prefix path @ rest) ''/''
         \<and> listdir_prefix path @ rest \<noteq> []
         \<and> (\<forall>c\<in>set (split_on CHR ''/'' rest). c \<noteq> ''.'' \<and> c \<noteq> ''..'')
         \<longrightarrow> relpath (getcwd cfg) (listdir_prefix path @ rest) (listdir_prefix path)
               = Inr (if filter (\<lambda>c. c \<noteq> []) (split_on CHR ''/'' rest) = [] then ''.''
                      else join_with ''/'' (filter (\<lambda>c. c \<noteq> []) (split_on CHR ''/'' rest))))
   \<and> (startswith (getcwd cfg) ''/''
         \<and> map fst (objects w) = [''a.txt'', ''b/c.txt'']
         \<and> fault w (ListObjects (AWS_S3_BUCKET_NAME cfg) (Some []) (Some ''/'')) = None
         \<longrightarrow> fst (listdir cfg ''.'' w) = Inr ([''b''], [''a.txt'']))"
proof (intro conjI impI allI ballI)
  show "listdir_prefix ''.'' = []" by (rule listdir_prefix_root)
next
  assume "get_key_name path = ''.''"
  then show "listdir_prefix path = []" by (simp add: listdir_prefix_def)
next
  assume k: "get_key_name path \<noteq> ''.''"
  then show "listdir_prefix path = get_key_name path @ ''/''" by (simp add: listdir_prefix_def)
  from k show "endswith (listdir_prefix path) ''/''"
    by (simp add: listdir_prefix_def endswith_append_sep)
next
  show "\<exists>n. 0 < n
          \<and> calls (snd (listdir cfg path w))
              = calls w @ replicate n (ListObjects (AWS_S3_BUCKET_NAME cfg)
                                         (Some (listdir_prefix path)) (Some ''/''))"
    by (rule listdir_calls)
next
  fix dirs files
  assume "fault w (ListObjects (AWS_S3_BUCKET_NAME cfg) (Some (listdir_prefix path)) (Some ''/'')) = None"
  then show "(fst (listdir cfg path w) = Inr (dirs, files))
                  = (list_all2 (\<lambda>e r. relpath (getcwd cfg) e (listdir_prefix path) = Inr r)
                       (entry_prefixes (list_entries CHR ''/'' (listdir_prefix path) (map fst (objects w))))
                       dirs
                     \<and> list_all2 (\<lambda>e r. relpath (getcwd cfg) e (listdir_prefix path) = Inr r)
                       (entry_keys (list_entries CHR ''/'' (listdir_prefix path) (map fst (objects w))))
                       files)"
    by (rule listdir_iff)
next
  fix e
  assume "e \<in> set (entry_keys (list_entries CHR ''/'' (listdir_prefix path) (map fst (objects w))))
           \<union> set (entry_prefixes (list_entries CHR ''/'' (listdir_prefix path) (map fst (objects w))))"
  then show "startswith e (listdir_prefix path)" by (rule list_entries_scoped)
next
  fix rest
  assume a: "startswith (getcwd cfg) ''/''
         \<and> \<not> startswith (listdir_prefix path @ rest) ''/''
         \<and> listdir_prefix path @ rest \<noteq> []
         \<and> (\<forall>c\<in>set (split_on CHR ''/'' rest). c \<noteq> ''.'' \<and> c \<noteq> ''..'')"
  have d: "listdir_prefix path = [] \<or> endswith (listdir_prefix path) ''/''"
    by (simp add: listdir_prefix_def endswith_append_sep)
  from a have a1: "startswith (getcwd cfg) ''/''" and a2: "\<not> startswith (listdir_prefix path @ rest) ''/''"
    and a3: "listdir_prefix path @ rest \<noteq> []"
    and a4: "\<forall>c\<in>set (split_on CHR ''/'' rest). c \<noteq> ''.'' \<and> c \<noteq> ''..''"
    by blast+
  show "relpath (getcwd cfg) (listdir_prefix path @ rest) (listdir_prefix path)
               = Inr (if filter (\<lambda>c. c \<noteq> []) (split_on CHR ''/'' rest) = [] then ''.''
                      else join_with ''/'' (filter (\<lambda>c. c \<noteq> []) (split_on CHR ''/'' rest)))"
    by (rule relpath_under_prefix [OF a1 a2 d a3 a4])
next
  assume "startswith (getcwd cfg) ''/''
         \<and> map fst (objects w) = [''a.txt'', ''b/c.txt'']
         \<and> fault w (ListObjects (AWS_S3_BUCKET_NAME cfg) (Some []) (Some ''/'')) = None"
  then have h1: "startswith (getcwd cfg) ''/''"
    and h2: "map fst (objects w) = [''a.txt'', ''b/c.txt'']"
    and h3: "fault w (ListObjects (AWS_S3_BUCKET_NAME cfg) (Some []) (Some ''/'')) = None"
    by simp_all
  show "fst (listdir cfg ''.'' w) = Inr ([''b''], [''a.txt''])"
    by (rule listdir_root_example [OF h1 h2 h3])
qed

text \<open>
  C8, as stated, fails: the path \<open>/.\<close> is not the path \<open>.\<close>, and \<open>listdir\<close> maps it
  to the bucket root, a prefix with no trailing separator, because the key mapper strips
  its leading separator before the test for \<open>.\<close>.
\<close>

theorem listdir_key_mapped_counterexample:
  "''/.'' \<noteq> ''.''
   \<and> listdir_prefix ''/.'' = []
   \<and> \<not> endswith (listdir_prefix ''/.'') ''/''
   \<and> fst (listdir sample_config ''/.'' two_file_world) = Inr ([''b''], [''a.txt''])"
proof -
  have a: "listdir_prefix ''/.'' = []" by (rule listdir_prefix_root)
  have b: "\<not> endswith (listdir_prefix ''/.'') ''/''" by (simp add: a endswith_def)
  have "listdir sample_config ''/.'' two_file_world = listdir sample_config ''.'' two_file_world"
    by (rule listdir_same_prefix) (simp add: listdir_prefix_root)
  moreover have "fst (listdir sample_config ''.'' two_file_world) = Inr ([''b''], [''a.txt''])"
    by (rule listdir_root_example) (simp_all add: sample_config_def two_file_world_def startswith_def)
  ultimately show ?thesis using a b by simp
qed

theorem listdir_lists_prefix_witness:
  "get_key_name ''.'' = ''.''
   \<and> listdir_prefix ''.'' = []
   \<and> get_key_name ''/b'' \<noteq> ''.''
   \<and> listdir_prefix ''/b'' = get_key_name ''/b'' @ ''/''
   \<and> endswith (listdir_prefix ''/b'') ''/''
   \<and> startswith (getcwd sample_config) ''/''
   \<and> map fst (objects two_file_world) = [''a.txt'', ''b/c.txt'']
   \<and> fault two_file_world (ListObjects (AWS_S3_BUCKET_NAME sample_config) (Some []) (Some ''/'')) = None
   \<and> fst (listdir sample_config ''.'' two_file_world) = Inr ([''b''], [''a.txt''])
   \<and> fault two_file_world
         (ListObjects (AWS_S3_BUCKET_NAME sample_config) (Some (listdir_prefix ''.'')) (Some ''/'')) = None
   \<and> list_all2 (\<lambda>e r. relpath (getcwd sample_config) e (listdir_prefix ''.'') = Inr r)
         (entry_prefixes (list_entries CHR ''/'' (listdir_prefix ''.'') (map fst (objects two_file_world))))
         [''b'']
   \<and> list_all2 (\<lambda>e r. relpath (getcwd sample_config) e (listdir_prefix ''.'') = Inr r)
         (entry_keys (list_entries CHR ''/'' (listdir_prefix ''.'') (map fst (objects two_file_world))))
         [''a.txt'']
   \<and> ''b/'' \<in> set (entry_keys (list_entries CHR ''/'' (listdir_prefix ''.'') (map fst (objects two_file_world))))
              \<union> set (entry_prefixes (list_entries CHR ''/'' (listdir_prefix ''.'') (map fst (objects two_file_world))))
   \<and> startswith ''b/'' (listdir_prefix ''.'')
   \<and> \<not> startswith (listdir_prefix ''/b'' @ ''c.txt'') ''/''
   \<and> listdir_prefix ''/b'' @ ''c.txt'' \<noteq> []
   \<and> split_on CHR ''/'' ''c.txt'' = [''c.txt'']
   \<and> relpath (getcwd sample_config) (listdir_prefix ''/b'' @ ''c.txt'') (listdir_prefix ''/b'')
       = Inr ''c.txt''"
proof -
  note t = listdir_lists_prefix [of "''.''" sample_config two_file_world]
  note u = listdir_lists_prefix [of "''/b''" sample_config two_file_world]
  have k1: "get_key_name ''.'' = ''.''" by (simp add: get_key_name_def startswith_def)
  have k2: "get_key_name ''/b'' \<noteq> ''.''" by (simp add: get_key_name_def startswith_def)
  from t k1 have p1: "listdir_prefix ''.'' = []" by blast
  from u k2 have p2: "listdir_prefix ''/b'' = get_key_name ''/b'' @ ''/''"
    and p3: "endswith (listdir_prefix ''/b'') ''/''" by blast+
  have c: "startswith (getcwd sample_config) ''/''" by (simp add: sample_config_def startswith_def)
  have o: "map fst (objects two_file_world) = [''a.txt'', ''b/c.txt'']" by (simp add: two_file_world_def)
  have f: "fault two_file_world (ListObjects (AWS_S3_BUCKET_NAME sample_config) (Some []) (Some ''/'')) = None"
    by (simp add: two_file_world_def)
  have f': "fault two_file_world
         (ListObjects (AWS_S3_BUCKET_NAME sample_config) (Some (listdir_prefix ''.'')) (Some ''/'')) = None"
    by (simp add: two_file_world_def)
  from t c o f have ex: "fst (listdir sample_config ''.'' two_file_world) = Inr ([''b''], [''a.txt''])"
    by blast
  from t f' ex
  have l1: "list_all2 (\<lambda>e r. relpath (getcwd sample_config) e (listdir_prefix ''.'') = Inr r)
         (entry_prefixes (list_entries CHR ''/'' (listdir_prefix ''.'') (map fst (objects two_file_world))))
         [''b'']"
   and l2: "list_all2 (\<lambda>e r. relpath (getcwd sample_config) e (listdir_prefix ''.'') = Inr r)
         (entry_keys (list_entries CHR ''/'' (listdir_prefix ''.'') (map fst (objects two_file_world))))
         [''a.txt'']"
    by blast+
  have m: "''b/'' \<in> set (entry_keys (list_entries CHR ''/'' (listdir_prefix ''.'') (map fst (objects two_file_world))))
              \<union> set (entry_prefixes (list_entries CHR ''/'' (listdir_prefix ''.'') (map fst (objects two_file_world))))"
    by (simp add: p1 o list_entries_def group_key_def startswith_def)
  from t m have sw: "startswith ''b/'' (listdir_prefix ''.'')" by blast
  have q: "listdir_prefix ''/b'' = ''b/''" by (simp add: p2 get_key_name_def startswith_def)
  have n1: "\<not> startswith (listdir_prefix ''/b'' @ ''c.txt'') ''/''" by (simp add: q startswith_def)
  have n2: "listdir_prefix ''/b'' @ ''c.txt'' \<noteq> []" by (simp add: q)
  have sp: "split_on CHR ''/'' ''c.txt'' = [''c.txt'']" by simp
  then have pl: "\<forall>c\<in>set (split_on CHR ''/'' ''c.txt''). c \<noteq> ''.'' \<and> c \<noteq> ''..''" by simp
  from u c n1 n2 pl
  have "relpath (getcwd sample_config) (listdir_prefix ''/b'' @ ''c.txt'') (listdir_prefix ''/b'')
       = Inr (if filter (\<lambda>c. c \<noteq> []) (split_on CHR ''/'' ''c.txt'') = [] then ''.''
              else join_with ''/'' (filter (\<lambda>c. c \<noteq> []) (split_on CHR ''/'' ''c.txt'')))"
    by blast
  then have rp: "relpath (getcwd sample_config) (listdir_prefix ''/b'' @ ''c.txt'') (listdir_prefix ''/b'')
       = Inr ''c.txt''"
    by (simp only: sp) simp
  from k1 p1 k2 p2 p3 c o f ex f' l1 l2 m sw n1 n2 sp rp show ?thesis by blast
qed

end
